theory Spec2Isabelle
  imports Complex_Main "HOL-Library.Word"
begin

section \<open>The voxel grid (class VoxelChunk)\<close>

text \<open>
  Block ids are the elements of a \<^verbatim>\<open>Uint8Array\<close>: bytes. The enumeration
  \<^verbatim>\<open>Block\<close> names six of them; 0 is air (the spec's Empty).
\<close>

type_synonym byte = "8 word"

definition AIR :: byte where "AIR = 0"
definition GRASS :: byte where "GRASS = 1"
definition SAND :: byte where "SAND = 2"
definition STONE :: byte where "STONE = 3"
definition WATER :: byte where "WATER = 4"
definition WOOD :: byte where "WOOD = 5"

text \<open>
  The chunk object: three dimensions and the typed array. Cell coordinates are the
  integers of the spec's data model (\<open>int\<close>).
\<close>

record VoxelChunk =
  width :: int
  height :: int
  depth :: int
  data :: "byte list"

text \<open>The constructor: \<^verbatim>\<open>new Uint8Array(width * height * depth)\<close> is zero-filled.\<close>

definition new_VoxelChunk :: "int \<Rightarrow> int \<Rightarrow> int \<Rightarrow> VoxelChunk" where
  "new_VoxelChunk w h d =
     \<lparr>width = w, height = h, depth = d, data = replicate (nat (w * h * d)) 0\<rparr>"

text \<open>
  Reading a typed array outside its range gives \<^verbatim>\<open>undefined\<close> (here \<open>None\<close>) and
  writing outside its range is ignored; neither throws.
\<close>

definition ta_get :: "byte list \<Rightarrow> int \<Rightarrow> byte option" where
  "ta_get a i = (if 0 \<le> i \<and> i < int (length a) then Some (a ! nat i) else None)"

definition ta_set :: "byte list \<Rightarrow> int \<Rightarrow> byte \<Rightarrow> byte list" where
  "ta_set a i v = (if 0 \<le> i \<and> i < int (length a) then a[nat i := v] else a)"

definition getIndex :: "VoxelChunk \<Rightarrow> int \<Rightarrow> int \<Rightarrow> int \<Rightarrow> int" where
  "getIndex ch x y z = y * width ch * depth ch + z * width ch + x"

definition inBounds :: "VoxelChunk \<Rightarrow> int \<Rightarrow> int \<Rightarrow> int \<Rightarrow> bool" where
  "inBounds ch x y z =
     (x \<ge> 0 \<and> x < width ch \<and> y \<ge> 0 \<and> y < height ch \<and> z \<ge> 0 \<and> z < depth ch)"

text \<open>
  \<open>getBlock\<close> returns a block id; \<open>None\<close> is the \<^verbatim>\<open>undefined\<close> that only a read past
  the array's end would give.
\<close>

definition getBlock :: "VoxelChunk \<Rightarrow> int \<Rightarrow> int \<Rightarrow> int \<Rightarrow> byte option" where
  "getBlock ch x y z =
     (if \<not> inBounds ch x y z then Some AIR
      else ta_get (data ch) (getIndex ch x y z))"

definition setBlock :: "VoxelChunk \<Rightarrow> int \<Rightarrow> int \<Rightarrow> int \<Rightarrow> byte \<Rightarrow> VoxelChunk" where
  "setBlock ch x y z v =
     (if \<not> inBounds ch x y z then ch
      else ch\<lparr>data := ta_set (data ch) (getIndex ch x y z) v\<rparr>)"

definition cellCount :: "VoxelChunk \<Rightarrow> int" where
  "cellCount ch = width ch * height ch * depth ch"

text \<open>
  The shape every chunk of the program has: the array is as long as the constructor made
  it. No operation of the program changes the dimensions or the array's length.
\<close>

definition chunk_ok :: "VoxelChunk \<Rightarrow> bool" where
  "chunk_ok ch = (int (length (data ch)) = cellCount ch)"

text \<open>
  The program's one chunk: \<^verbatim>\<open>new VoxelChunk(CHUNK_SIZE, CHUNK_HEIGHT, CHUNK_SIZE)\<close>.
\<close>

definition VOXEL_SIZE :: real where "VOXEL_SIZE = 1"
definition CHUNK_SIZE :: int where "CHUNK_SIZE = 16"
definition CHUNK_HEIGHT :: int where "CHUNK_HEIGHT = 12"

definition initial_chunk :: VoxelChunk where
  "initial_chunk = new_VoxelChunk CHUNK_SIZE CHUNK_HEIGHT CHUNK_SIZE"

section \<open>Cells and world positions\<close>

text \<open>
  A cell is the object \<^verbatim>\<open>{ x, y, z }\<close>; a world point is a \<^verbatim>\<open>THREE.Vector3\<close>, whose
  components are binary64 numbers, here the reals they denote.
\<close>

record cell =
  cx :: int
  cy :: int
  cz :: int

record vec3 =
  vx :: real
  vy :: real
  vz :: real

definition halfWidth :: "VoxelChunk \<Rightarrow> real" where
  "halfWidth ch = (real_of_int (width ch) * VOXEL_SIZE) / 2"

definition halfDepth :: "VoxelChunk \<Rightarrow> real" where
  "halfDepth ch = (real_of_int (depth ch) * VOXEL_SIZE) / 2"

text \<open>
  \<^verbatim>\<open>cellToWorld\<close>, written with exact arithmetic: for the cells of the grid its sums and
  differences of halves and small integers are exact in binary64.
\<close>

definition cellToWorld :: "VoxelChunk \<Rightarrow> int \<Rightarrow> int \<Rightarrow> int \<Rightarrow> vec3" where
  "cellToWorld ch x y z =
     \<lparr>vx = (real_of_int x + 0.5) * VOXEL_SIZE - halfWidth ch,
      vy = real_of_int y * VOXEL_SIZE,
      vz = (real_of_int z + 0.5) * VOXEL_SIZE - halfDepth ch\<rparr>"

text \<open>
  \<^verbatim>\<open>worldPointToCell(worldPoint, options = { snapY: true })\<close>; the flag is
  \<^verbatim>\<open>options.snapY\<close>, and \<open>None\<close> is \<^verbatim>\<open>null\<close>. The first argument \<open>add\<close> is the addition
  of JavaScript numbers: the code takes \<^verbatim>\<open>Math.floor\<close> of the rounded sums, not of the
  exact ones. Dividing by \<open>VOXEL_SIZE\<close>, which is 1, does not round.
\<close>

definition worldPointToCell ::
  "(real \<Rightarrow> real \<Rightarrow> real) \<Rightarrow> VoxelChunk \<Rightarrow> vec3 \<Rightarrow> bool \<Rightarrow> cell option" where
  "worldPointToCell add ch worldPoint snapY =
     (let x = \<lfloor>add (vx worldPoint) (halfWidth ch) / VOXEL_SIZE\<rfloor>;
          yRaw = (if snapY then vy worldPoint / VOXEL_SIZE else vy worldPoint);
          y = \<lfloor>add yRaw 0.5\<rfloor>;
          z = \<lfloor>add (vz worldPoint) (halfDepth ch) / VOXEL_SIZE\<rfloor>
      in if \<not> inBounds ch x y z then None
         else Some \<lparr>cx = x, cy = y, cz = z\<rparr>)"

text \<open>
  The snapped policy in the spec's words, for comparison with the code: every axis is
  the floor of position / size (the position taken relative to the grid's corner on the
  x/z footprint, as the code does).
\<close>

definition spec_snapped_worldToCell ::
  "(real \<Rightarrow> real \<Rightarrow> real) \<Rightarrow> VoxelChunk \<Rightarrow> vec3 \<Rightarrow> cell option" where
  "spec_snapped_worldToCell add ch p =
     (let x = \<lfloor>add (vx p) (halfWidth ch) / VOXEL_SIZE\<rfloor>;
          y = \<lfloor>vy p / VOXEL_SIZE\<rfloor>;
          z = \<lfloor>add (vz p) (halfDepth ch) / VOXEL_SIZE\<rfloor>
      in if \<not> inBounds ch x y z then None
         else Some \<lparr>cx = x, cy = y, cz = z\<rparr>)"

section \<open>The persistence codec\<close>

text \<open>
  \<^verbatim>\<open>btoa\<close> and \<^verbatim>\<open>atob\<close> are the browser's Base64 functions (RFC 4648 alphabet with
  padding; \<^verbatim>\<open>atob\<close> is the forgiving decoder of the WHATWG Infra standard). A binary
  string, whose characters all have codes below 256, is the list of those codes.
\<close>

datatype error = InvalidCharacterError | LengthMismatch

definition b64_alphabet :: string where
  "b64_alphabet = ''ABCDEFGHIJKLMNOPQRSTUVWXYZabcdefghijklmnopqrstuvwxyz0123456789+/''"

definition b64_char :: "nat \<Rightarrow> char" where
  "b64_char n = b64_alphabet ! n"

fun index_of :: "'a \<Rightarrow> 'a list \<Rightarrow> nat option" where
  "index_of x [] = None"
| "index_of x (y # ys) = (if x = y then Some 0 else map_option Suc (index_of x ys))"

definition b64_value :: "char \<Rightarrow> nat option" where
  "b64_value c = index_of c b64_alphabet"

text \<open>Three bytes become four 6-bit groups; a last group of one or two bytes is cut short.\<close>

fun b64_sextets :: "byte list \<Rightarrow> nat list" where
  "b64_sextets (a # b # c # rest) =
     [unat a div 4, (unat a mod 4) * 16 + unat b div 16,
      (unat b mod 16) * 4 + unat c div 64, unat c mod 64] @ b64_sextets rest"
| "b64_sextets [a, b] =
     [unat a div 4, (unat a mod 4) * 16 + unat b div 16, (unat b mod 16) * 4]"
| "b64_sextets [a] = [unat a div 4, (unat a mod 4) * 16]"
| "b64_sextets [] = []"

definition b64_padding :: "nat \<Rightarrow> string" where
  "b64_padding n = replicate ((3 - n mod 3) mod 3) (CHR ''='')"

definition btoa :: "byte list \<Rightarrow> string" where
  "btoa bs = map b64_char (b64_sextets bs) @ b64_padding (length bs)"

definition is_ascii_whitespace :: "char \<Rightarrow> bool" where
  "is_ascii_whitespace c =
     (c = CHR 0x09 \<or> c = CHR 0x0A \<or> c = CHR 0x0C \<or> c = CHR 0x0D \<or> c = CHR 0x20)"

definition strip_padding :: "string \<Rightarrow> string" where
  "strip_padding d =
     (if length d mod 4 = 0 \<and> d \<noteq> [] \<and> last d = CHR ''=''
      then (let d1 = butlast d
            in if d1 \<noteq> [] \<and> last d1 = CHR ''='' then butlast d1 else d1)
      else d)"

fun b64_values :: "string \<Rightarrow> nat list option" where
  "b64_values [] = Some []"
| "b64_values (c # cs) =
     (case b64_value c of
        None \<Rightarrow> None
      | Some n \<Rightarrow> (case b64_values cs of None \<Rightarrow> None | Some ns \<Rightarrow> Some (n # ns)))"

fun b64_bytes :: "nat list \<Rightarrow> byte list" where
  "b64_bytes (p # q # r # s # rest) =
     [of_nat (p * 4 + q div 16), of_nat ((q mod 16) * 16 + r div 4),
      of_nat ((r mod 4) * 64 + s)] @ b64_bytes rest"
| "b64_bytes [p, q, r] = [of_nat (p * 4 + q div 16), of_nat ((q mod 16) * 16 + r div 4)]"
| "b64_bytes [p, q] = [of_nat (p * 4 + q div 16)]"
| "b64_bytes [p] = []"
| "b64_bytes [] = []"

definition atob :: "string \<Rightarrow> error + byte list" where
  "atob s =
     (let d = strip_padding (filter (\<lambda>c. \<not> is_ascii_whitespace c) s)
      in if length d mod 4 = 1 then Inl InvalidCharacterError
         else (case b64_values d of
                 None \<Rightarrow> Inl InvalidCharacterError
               | Some ns \<Rightarrow> Inr (b64_bytes ns)))"

text \<open>
  \<^verbatim>\<open>encodeChunkData\<close>: \<^verbatim>\<open>String.fromCharCode(...chunk.data)\<close> is the binary string of
  the array's bytes.
\<close>

definition encodeChunkData :: "VoxelChunk \<Rightarrow> string" where
  "encodeChunkData ch = btoa (data ch)"

text \<open>
  \<^verbatim>\<open>decodeChunkData\<close> throws or writes the array. The result is the exception thrown, if
  any, and the chunk as the call leaves it. The loop writes \<^verbatim>\<open>binaryString.charCodeAt(i)\<close>
  to index \<open>i\<close> for \<open>i\<close> from 0 up to the array's length, which the check before it made the
  string's length.
\<close>

definition decode_loop :: "byte list \<Rightarrow> byte list \<Rightarrow> byte list" where
  "decode_loop binaryString a =
     fold (\<lambda>i a. ta_set a (int i) (binaryString ! i)) [0..<length a] a"

definition decodeChunkData :: "string \<Rightarrow> VoxelChunk \<Rightarrow> error option \<times> VoxelChunk" where
  "decodeChunkData encoded ch =
     (case atob encoded of
        Inl e \<Rightarrow> (Some e, ch)
      | Inr binaryString \<Rightarrow>
          if length binaryString \<noteq> length (data ch) then (Some LengthMismatch, ch)
          else (None, ch\<lparr>data := decode_loop binaryString (data ch)\<rparr>))"

section \<open>Block types, edit actions and the program state\<close>

text \<open>
  A row of \<^verbatim>\<open>BLOCK_TYPES\<close>: the id and whether the type is placeable
  (\<^verbatim>\<open>block.placeable !== false\<close>); the other attributes only drive rendering.
\<close>

record block_type =
  bt_id :: byte
  bt_placeable :: bool

definition BLOCK_TYPES :: "block_type list" where
  "BLOCK_TYPES =
     [\<lparr>bt_id = AIR, bt_placeable = False\<rparr>, \<lparr>bt_id = GRASS, bt_placeable = True\<rparr>,
      \<lparr>bt_id = SAND, bt_placeable = True\<rparr>, \<lparr>bt_id = STONE, bt_placeable = True\<rparr>,
      \<lparr>bt_id = WATER, bt_placeable = True\<rparr>, \<lparr>bt_id = WOOD, bt_placeable = True\<rparr>]"

definition blockTypeById :: "byte \<Rightarrow> block_type option" where
  "blockTypeById b = map_of (map (\<lambda>block. (bt_id block, block)) BLOCK_TYPES) b"

definition placeableBlocks :: "block_type list" where
  "placeableBlocks = filter (\<lambda>block. bt_placeable block \<and> bt_id block \<noteq> AIR) BLOCK_TYPES"

definition defaultBlockId :: byte where "defaultBlockId = GRASS"

text \<open>
  An edit action \<^verbatim>\<open>{ type, blockId, cell }\<close>. \<open>act_blockId\<close> is \<open>None\<close> when the
  JavaScript value is \<^verbatim>\<open>undefined\<close>.
\<close>

datatype action_type = Place | Remove

record action =
  act_type :: action_type
  act_blockId :: "byte option"
  act_cell :: cell

text \<open>
  What \<^verbatim>\<open>platform.intersectObjects(intersectables, false)[0]\<close> yields: whether the
  object hit is one of the block meshes, the face normal (integer-valued for the box
  geometry; \<open>None\<close> when \<^verbatim>\<open>hit.face\<close> is null) and the hit point. The ray cast itself
  belongs to the rendering library: a function of the chunk, whose instances the meshes
  show, and of the pointer coordinates.
\<close>

record hit =
  hit_isBlock :: bool
  hit_face :: "(int \<times> int \<times> int) option"
  hit_point :: vec3

text \<open>
  What the program takes from its platform and is not code of the repository: the ray
  cast, and the addition of JavaScript numbers, which rounds the exact sum to the nearest
  binary64 number. Both are parameters, so that every statement below holds whatever they
  return. The other arithmetic of the picker (multiplying by 1 or by \<open>-0.5\<close>, dividing by
  1 or by 2, \<^verbatim>\<open>Math.floor\<close>) is exact in binary64, overflow and underflow aside, and is
  written on the reals.
\<close>

record platform =
  raycast :: "VoxelChunk \<Rightarrow> real \<times> real \<Rightarrow> hit option"
  js_add :: "real \<Rightarrow> real \<Rightarrow> real"

text \<open>
  \<open>pointerState\<close>. The field \<open>timer\<close> is \<open>True\<close> while a long-press timeout is pending.
\<close>

record pointer_state =
  pointerId :: "int option"
  timer :: bool
  longPressFired :: bool
  placeCell :: "cell option"
  removeCell :: "cell option"

text \<open>
  The module's mutable variables. \<open>saveTimer\<close> is \<open>True\<close> while a debounced save is
  scheduled. The head of a stack list is the top of the stack.
\<close>

record state =
  chunk :: VoxelChunk
  selectedBlockId :: byte
  undoStack :: "action list"
  redoStack :: "action list"
  isRestoring :: bool
  saveTimer :: bool
  hoverPlaceCell :: "cell option"
  hoverRemoveCell :: "cell option"
  lastPointerCoords :: "(real \<times> real) option"
  pointerState :: pointer_state

definition initial_state :: "VoxelChunk \<Rightarrow> state" where
  "initial_state ch =
     \<lparr>chunk = ch, selectedBlockId = defaultBlockId, undoStack = [], redoStack = [],
      isRestoring = False, saveTimer = False, hoverPlaceCell = None, hoverRemoveCell = None,
      lastPointerCoords = None,
      pointerState = \<lparr>pointerId = None, timer = False, longPressFired = False,
                      placeCell = None, removeCell = None\<rparr>\<rparr>"

section \<open>Saving\<close>

text \<open>
  Only the timer of the debounced save is modelled; the write to \<^verbatim>\<open>localStorage\<close> and
  the status label are outside the model.
\<close>

definition flushSave :: "state \<Rightarrow> state" where
  "flushSave s = s\<lparr>saveTimer := False\<rparr>"

definition scheduleSave :: "state \<Rightarrow> state" where
  "scheduleSave s = s\<lparr>saveTimer := True\<rparr>"

section \<open>The picker (updateHoverFromPointer)\<close>

text \<open>The variant of the multi-block program: only block meshes are intersected.\<close>

definition updateHoverFromPointer :: "platform \<Rightarrow> state \<Rightarrow> state" where
  "updateHoverFromPointer pf s =
     (case lastPointerCoords s of
        None \<Rightarrow> s\<lparr>hoverPlaceCell := None, hoverRemoveCell := None\<rparr>
      | Some coords \<Rightarrow>
          (let s0 = s\<lparr>hoverPlaceCell := None, hoverRemoveCell := None\<rparr>
           in case raycast pf (chunk s) coords of
                None \<Rightarrow> s0
              | Some h \<Rightarrow>
                  (case hit_face h of
                     None \<Rightarrow> s0
                   | Some (nx, ny, nz) \<Rightarrow>
                       if \<not> hit_isBlock h then s0
                       else
                         (let pointInside =
                                \<lparr>vx = js_add pf (vx (hit_point h)) (real_of_int nx * (- 0.5 * VOXEL_SIZE)),
                                 vy = js_add pf (vy (hit_point h)) (real_of_int ny * (- 0.5 * VOXEL_SIZE)),
                                 vz = js_add pf (vz (hit_point h)) (real_of_int nz * (- 0.5 * VOXEL_SIZE))\<rparr>
                          in case worldPointToCell (js_add pf) (chunk s) pointInside True of
                               None \<Rightarrow> s0
                             | Some hitCell \<Rightarrow>
                                 (let s1 = s0\<lparr>hoverRemoveCell := Some hitCell\<rparr>;
                                      adjacentCell = \<lparr>cx = cx hitCell + nx, cy = cy hitCell + ny,
                                                      cz = cz hitCell + nz\<rparr>
                                  in if inBounds (chunk s) (cx adjacentCell) (cy adjacentCell)
                                          (cz adjacentCell)
                                        \<and> getBlock (chunk s) (cx adjacentCell) (cy adjacentCell)
                                            (cz adjacentCell) = Some AIR
                                     then s1\<lparr>hoverPlaceCell := Some adjacentCell\<rparr>
                                     else s1)))))"

text \<open>
  The variant of the single-block program (main.js): a hit that is not on the block mesh
  is a hit on the invisible ground plane and resolves to a cell of height 0.
\<close>

definition updateHoverFromPointer_ground :: "platform \<Rightarrow> state \<Rightarrow> state" where
  "updateHoverFromPointer_ground pf s =
     (case lastPointerCoords s of
        None \<Rightarrow> s\<lparr>hoverPlaceCell := None, hoverRemoveCell := None\<rparr>
      | Some coords \<Rightarrow>
          (let s0 = s\<lparr>hoverPlaceCell := None, hoverRemoveCell := None\<rparr>
           in case raycast pf (chunk s) coords of
                None \<Rightarrow> s0
              | Some h \<Rightarrow>
                  (case (if hit_isBlock h then hit_face h else None) of
                     Some (nx, ny, nz) \<Rightarrow>
                       (let pointInside =
                              \<lparr>vx = js_add pf (vx (hit_point h)) (real_of_int nx * (- 0.5 * VOXEL_SIZE)),
                               vy = js_add pf (vy (hit_point h)) (real_of_int ny * (- 0.5 * VOXEL_SIZE)),
                               vz = js_add pf (vz (hit_point h)) (real_of_int nz * (- 0.5 * VOXEL_SIZE))\<rparr>
                        in case worldPointToCell (js_add pf) (chunk s) pointInside True of
                             None \<Rightarrow> s0
                           | Some hitCell \<Rightarrow>
                               (let s1 = s0\<lparr>hoverRemoveCell := Some hitCell\<rparr>;
                                    adjacentCell = \<lparr>cx = cx hitCell + nx, cy = cy hitCell + ny,
                                                    cz = cz hitCell + nz\<rparr>
                                in if inBounds (chunk s) (cx adjacentCell) (cy adjacentCell)
                                        (cz adjacentCell)
                                      \<and> getBlock (chunk s) (cx adjacentCell) (cy adjacentCell)
                                          (cz adjacentCell) = Some AIR
                                   then s1\<lparr>hoverPlaceCell := Some adjacentCell\<rparr>
                                   else s1))
                   | None \<Rightarrow>
                       (case worldPointToCell (js_add pf) (chunk s) (hit_point h) False of
                          None \<Rightarrow> s0
                        | Some cell0 \<Rightarrow>
                            (let groundCell = cell0\<lparr>cy := 0\<rparr>
                             in if getBlock (chunk s) (cx groundCell) (cy groundCell)
                                     (cz groundCell) = Some AIR
                                then s0\<lparr>hoverPlaceCell := Some groundCell\<rparr>
                                else s0\<lparr>hoverRemoveCell := Some groundCell\<rparr>)))))"

section \<open>The history log\<close>

definition clearHistory :: "state \<Rightarrow> state" where
  "clearHistory s = s\<lparr>undoStack := [], redoStack := []\<rparr>"

definition invertAction :: "action \<Rightarrow> action" where
  "invertAction a =
     (case act_type a of
        Place \<Rightarrow> \<lparr>act_type = Remove, act_blockId = act_blockId a, act_cell = act_cell a\<rparr>
      | Remove \<Rightarrow> \<lparr>act_type = Place, act_blockId = act_blockId a, act_cell = act_cell a\<rparr>)"

text \<open>\<open>applyAction\<close> returns its boolean and the state it leaves.\<close>

definition applyAction :: "action \<Rightarrow> state \<Rightarrow> bool \<times> state" where
  "applyAction a s =
     (let cell = act_cell a
      in if \<not> inBounds (chunk s) (cx cell) (cy cell) (cz cell) then (False, s)
         else
           (let v = (if act_type a = Place
                     then (case act_blockId a of None \<Rightarrow> AIR | Some b \<Rightarrow> b)
                     else AIR);
                s1 = s\<lparr>isRestoring := True\<rparr>;
                s2 = s1\<lparr>chunk := setBlock (chunk s1) (cx cell) (cy cell) (cz cell) v\<rparr>;
                s3 = scheduleSave s2
            in (True, s3\<lparr>isRestoring := False\<rparr>)))"

definition pushAction :: "action \<Rightarrow> state \<Rightarrow> state" where
  "pushAction a s = s\<lparr>undoStack := a # undoStack s, redoStack := []\<rparr>"

definition undo :: "state \<Rightarrow> state" where
  "undo s =
     (case undoStack s of
        [] \<Rightarrow> s
      | a # rest \<Rightarrow>
          (let s1 = s\<lparr>undoStack := rest\<rparr>;
               (ok, s2) = applyAction (invertAction a) s1
           in if ok then s2\<lparr>redoStack := a # redoStack s2\<rparr> else s2))"

definition redo :: "state \<Rightarrow> state" where
  "redo s =
     (case redoStack s of
        [] \<Rightarrow> s
      | a # rest \<Rightarrow>
          (let s1 = s\<lparr>redoStack := rest\<rparr>;
               (ok, s2) = applyAction a s1
           in if ok then s2\<lparr>undoStack := a # undoStack s2\<rparr> else s2))"

text \<open>
  \<^verbatim>\<open>fillDefaultTerrain\<close> is a fixed sequence of \<^verbatim>\<open>setBlock\<close> calls whose cells and ids
  come from floating-point noise; the sequence is a parameter.
\<close>

type_synonym terrain = "(cell \<times> byte) list"

definition fillDefaultTerrain :: "terrain \<Rightarrow> VoxelChunk \<Rightarrow> VoxelChunk" where
  "fillDefaultTerrain tr ch =
     fold (\<lambda>(c, b) ch. setBlock ch (cx c) (cy c) (cz c) b) tr ch"

definition resetChunkState :: "terrain \<Rightarrow> state \<Rightarrow> state" where
  "resetChunkState tr s =
     (let ch0 = (chunk s)\<lparr>data := replicate (length (data (chunk s))) AIR\<rparr>;
          s1 = s\<lparr>chunk := fillDefaultTerrain tr ch0\<rparr>
      in flushSave (clearHistory s1))"

definition setSelectedBlock :: "byte \<Rightarrow> state \<Rightarrow> state" where
  "setSelectedBlock blockId s =
     (case blockTypeById blockId of
        None \<Rightarrow> s
      | Some blockType \<Rightarrow>
          if bt_id blockType = AIR then s else s\<lparr>selectedBlockId := bt_id blockType\<rparr>)"

section \<open>Committing edits\<close>

text \<open>
  The calls that only redraw or give feedback (\<^verbatim>\<open>refreshChunkInstances\<close>,
  \<^verbatim>\<open>triggerFeedback\<close>, \<^verbatim>\<open>updateHighlight\<close>, \<^verbatim>\<open>updateStats\<close>,
  \<^verbatim>\<open>updateHistoryButtons\<close>) read the state modelled here and do not write it; they are
  left out of every function below.
\<close>

definition attemptPlace :: "platform \<Rightarrow> cell option \<Rightarrow> state \<Rightarrow> state" where
  "attemptPlace pf cell s =
     (case cell of
        None \<Rightarrow> s
      | Some c \<Rightarrow>
          (case blockTypeById (selectedBlockId s) of
             None \<Rightarrow> s
           | Some blockType \<Rightarrow>
               if bt_id blockType = AIR then s
               else if getBlock (chunk s) (cx c) (cy c) (cz c) \<noteq> Some AIR then s
               else
                 (let s1 = s\<lparr>chunk := setBlock (chunk s) (cx c) (cy c) (cz c) (bt_id blockType)\<rparr>;
                      s2 = scheduleSave s1;
                      s3 = (if \<not> isRestoring s2
                            then pushAction \<lparr>act_type = Place, act_blockId = Some (bt_id blockType),
                                             act_cell = c\<rparr> s2
                            else s2);
                      s4 = s3\<lparr>hoverPlaceCell := None, hoverRemoveCell := None\<rparr>
                  in updateHoverFromPointer pf s4)))"

definition attemptRemove :: "platform \<Rightarrow> cell option \<Rightarrow> state \<Rightarrow> state" where
  "attemptRemove pf cell s =
     (case cell of
        None \<Rightarrow> s
      | Some c \<Rightarrow>
          (let existing = getBlock (chunk s) (cx c) (cy c) (cz c)
           in if existing = Some AIR then s
              else
                (let s1 = s\<lparr>chunk := setBlock (chunk s) (cx c) (cy c) (cz c) AIR\<rparr>;
                     s2 = scheduleSave s1;
                     s3 = (if \<not> isRestoring s2
                           then pushAction \<lparr>act_type = Remove, act_blockId = existing,
                                            act_cell = c\<rparr> s2
                           else s2);
                     s4 = s3\<lparr>hoverPlaceCell := None, hoverRemoveCell := None\<rparr>
                 in updateHoverFromPointer pf s4)))"

section \<open>The gesture controller\<close>

definition clearPointerTimer :: "state \<Rightarrow> state" where
  "clearPointerTimer s = s\<lparr>pointerState := (pointerState s)\<lparr>timer := False\<rparr>\<rparr>"

definition clearPointerState :: "state \<Rightarrow> state" where
  "clearPointerState s =
     (let s1 = clearPointerTimer s
      in s1\<lparr>pointerState := (pointerState s1)\<lparr>pointerId := None, longPressFired := False,
            placeCell := None, removeCell := None\<rparr>\<rparr>)"

text \<open>
  An event carries the pointer coordinates \<^verbatim>\<open>setPointerFromEvent\<close> computes from it.
\<close>

definition setPointerFromEvent :: "real \<times> real \<Rightarrow> state \<Rightarrow> state" where
  "setPointerFromEvent coords s = s\<lparr>lastPointerCoords := Some coords\<rparr>"

definition updateHover :: "platform \<Rightarrow> real \<times> real \<Rightarrow> state \<Rightarrow> state" where
  "updateHover pf coords s = updateHoverFromPointer pf (setPointerFromEvent coords s)"

definition handlePointerMove :: "platform \<Rightarrow> int \<Rightarrow> real \<times> real \<Rightarrow> state \<Rightarrow> state" where
  "handlePointerMove pf eventPointerId coords s =
     (let s1 = updateHover pf coords s
      in if pointerId (pointerState s1) = Some eventPointerId
         then
           (let s2 = s1\<lparr>pointerState := (pointerState s1)\<lparr>placeCell := hoverPlaceCell s1,
                         removeCell := hoverRemoveCell s1\<rparr>\<rparr>
            in if removeCell (pointerState s2) = None then clearPointerTimer s2 else s2)
         else s1)"

definition handlePointerDown ::
  "platform \<Rightarrow> int \<Rightarrow> int \<Rightarrow> real \<times> real \<Rightarrow> state \<Rightarrow> state" where
  "handlePointerDown pf eventPointerId button coords s =
     (if pointerId (pointerState s) \<noteq> None \<or> button > 0 then s
      else
        (let s1 = updateHover pf coords s
         in if hoverPlaceCell s1 = None \<and> hoverRemoveCell s1 = None then s1
            else
              (let s2 = s1\<lparr>pointerState := (pointerState s1)\<lparr>pointerId := Some eventPointerId,
                            placeCell := hoverPlaceCell s1, removeCell := hoverRemoveCell s1,
                            longPressFired := False\<rparr>\<rparr>
               in if removeCell (pointerState s2) \<noteq> None
                  then s2\<lparr>pointerState := (pointerState s2)\<lparr>timer := True\<rparr>\<rparr>
                  else s2)))"

text \<open>The callback of the long-press timeout; it runs only while the timeout is pending.\<close>

definition longPressTimeout :: "platform \<Rightarrow> state \<Rightarrow> state" where
  "longPressTimeout pf s =
     (if \<not> timer (pointerState s) then s
      else
        (let s1 = s\<lparr>pointerState := (pointerState s)\<lparr>timer := False\<rparr>\<rparr>;
             s2 = attemptRemove pf (removeCell (pointerState s1)) s1
         in s2\<lparr>pointerState := (pointerState s2)\<lparr>longPressFired := True\<rparr>\<rparr>))"

definition handlePointerUp :: "platform \<Rightarrow> int \<Rightarrow> state \<Rightarrow> state" where
  "handlePointerUp pf eventPointerId s =
     (if pointerId (pointerState s) \<noteq> Some eventPointerId then s
      else
        (let cell = placeCell (pointerState s);
             shouldPlace = (\<not> longPressFired (pointerState s) \<and> cell \<noteq> None);
             s1 = clearPointerState s
         in if shouldPlace then attemptPlace pf cell s1 else s1))"

definition handlePointerCancel :: "int \<Rightarrow> state \<Rightarrow> state" where
  "handlePointerCancel eventPointerId s =
     (if pointerId (pointerState s) \<noteq> Some eventPointerId then s
      else clearPointerState s)"

definition handlePointerLeave :: "state \<Rightarrow> state" where
  "handlePointerLeave s =
     (let s1 = s\<lparr>hoverPlaceCell := None, hoverRemoveCell := None\<rparr>;
          s2 = clearPointerState s1
      in s2\<lparr>lastPointerCoords := None\<rparr>)"

section \<open>Events\<close>

text \<open>
  The listeners the program registers, and its two timeouts (\<open>PageHide\<close> stands for
  \<^verbatim>\<open>beforeunload\<close> and for the page becoming hidden, which both flush the save).
  \<open>step\<close> runs the listener of an event.
\<close>

datatype event =
    PointerMove int "real \<times> real"
  | PointerDown int int "real \<times> real"
  | PointerUp int
  | PointerCancel int
  | PointerLeave
  | LongPressTimeout
  | UndoClick
  | RedoClick
  | ResetClick
  | BlockClick byte
  | SaveTimeout
  | PageHide

fun step :: "platform \<Rightarrow> terrain \<Rightarrow> state \<Rightarrow> event \<Rightarrow> state" where
  "step pf tr s (PointerMove pid coords) = handlePointerMove pf pid coords s"
| "step pf tr s (PointerDown pid button coords) = handlePointerDown pf pid button coords s"
| "step pf tr s (PointerUp pid) = handlePointerUp pf pid s"
| "step pf tr s (PointerCancel pid) = handlePointerCancel pid s"
| "step pf tr s PointerLeave = handlePointerLeave s"
| "step pf tr s LongPressTimeout = longPressTimeout pf s"
| "step pf tr s UndoClick = undo s"
| "step pf tr s RedoClick = redo s"
| "step pf tr s ResetClick = resetChunkState tr s"
| "step pf tr s (BlockClick b) = setSelectedBlock b s"
| "step pf tr s SaveTimeout = (if saveTimer s then flushSave s else s)"
| "step pf tr s PageHide = flushSave s"

text \<open>
  The states the program can be in: it starts with a chunk of the constructor's shape
  (loaded from storage or filled with the default terrain) and then runs listeners. The
  ray cast may differ from event to event, as the camera moves, so the platform is free at
  each step.
\<close>

inductive reachable :: "state \<Rightarrow> bool" where
  reachable_init: "chunk_ok ch \<Longrightarrow> reachable (initial_state ch)"
| reachable_step: "reachable s \<Longrightarrow> reachable (step pf tr s ev)"

section \<open>A concrete scene\<close>

text \<open>
  The spec's scenario: the 16 x 12 x 16 grid, empty but for a stone block at \<open>(8, 0, 8)\<close>,
  whose cube spans \<open>[0, 1] \<times> [-0.5, 0.5] \<times> [0, 1]\<close> in world space. On one platform the
  ray hits the middle of its top face, on the other the edge of the top face at \<open>x = 1\<close>.
  All the numbers the picker adds in these scenes are halves and small integers, whose
  binary64 sums are exact: the platforms add exactly.
\<close>

definition stone_chunk :: VoxelChunk where
  "stone_chunk = setBlock initial_chunk 8 0 8 STONE"

definition exact_add :: "real \<Rightarrow> real \<Rightarrow> real" where
  "exact_add a b = a + b"

definition top_face_platform :: platform where
  "top_face_platform =
     \<lparr>raycast = (\<lambda>ch coords.
        Some \<lparr>hit_isBlock = True, hit_face = Some (0, 1, 0),
              hit_point = \<lparr>vx = 1 / 2, vy = 1 / 2, vz = 1 / 2\<rparr>\<rparr>),
      js_add = exact_add\<rparr>"

definition top_edge_platform :: platform where
  "top_edge_platform =
     \<lparr>raycast = (\<lambda>ch coords.
        Some \<lparr>hit_isBlock = True, hit_face = Some (0, 1, 0),
              hit_point = \<lparr>vx = 1, vy = 1 / 2, vz = 1 / 2\<rparr>\<rparr>),
      js_add = exact_add\<rparr>"

definition pointing_state :: state where
  "pointing_state = (initial_state stone_chunk)\<lparr>lastPointerCoords := Some (0, 0)\<rparr>"

section \<open>Invariants of the reachable states\<close>

abbreviation inBoundsCell :: "VoxelChunk \<Rightarrow> cell \<Rightarrow> bool" where
  "inBoundsCell ch c \<equiv> inBounds ch (cx c) (cy c) (cz c)"

text \<open>Every recorded action, on either stack, has an in-bounds cell.\<close>

definition history_inBounds :: "state \<Rightarrow> bool" where
  "history_inBounds s =
     (\<forall>a \<in> set (undoStack s) \<union> set (redoStack s). inBoundsCell (chunk s) (act_cell a))"

text \<open>
  The placement candidates the picker and the gesture controller hold are in-bounds cells;
  these are the cells \<open>attemptPlace\<close> is called with.
\<close>

definition candidate_inBounds :: "VoxelChunk \<Rightarrow> cell option \<Rightarrow> bool" where
  "candidate_inBounds ch cell = (case cell of None \<Rightarrow> True | Some c \<Rightarrow> inBoundsCell ch c)"

definition candidates_inBounds :: "state \<Rightarrow> bool" where
  "candidates_inBounds s =
     (candidate_inBounds (chunk s) (hoverPlaceCell s)
      \<and> candidate_inBounds (chunk s) (placeCell (pointerState s)))"

definition state_inv :: "state \<Rightarrow> bool" where
  "state_inv s = (history_inBounds s \<and> candidates_inBounds s \<and> \<not> isRestoring s)"

text \<open>
  The state a committed \<open>attemptPlace\<close> or \<open>attemptRemove\<close> has made when it calls
  \<open>updateHoverFromPointer\<close> at its end (outside \<open>applyAction\<close>, so the action is recorded).
\<close>

definition placed :: "cell \<Rightarrow> byte \<Rightarrow> state \<Rightarrow> state" where
  "placed c b s =
     s\<lparr>chunk := setBlock (chunk s) (cx c) (cy c) (cz c) b, saveTimer := True,
       undoStack := \<lparr>act_type = Place, act_blockId = Some b, act_cell = c\<rparr> # undoStack s,
       redoStack := [], hoverPlaceCell := None, hoverRemoveCell := None\<rparr>"

definition removed :: "cell \<Rightarrow> state \<Rightarrow> state" where
  "removed c s =
     s\<lparr>chunk := setBlock (chunk s) (cx c) (cy c) (cz c) AIR, saveTimer := True,
       undoStack := \<lparr>act_type = Remove, act_blockId = getBlock (chunk s) (cx c) (cy c) (cz c),
                     act_cell = c\<rparr> # undoStack s,
       redoStack := [], hoverPlaceCell := None, hoverRemoveCell := None\<rparr>"

text \<open>What \<open>applyAction\<close> writes for an action, and its effect on the grid alone.\<close>

definition action_value :: "action \<Rightarrow> byte" where
  "action_value a =
     (if act_type a = Place then (case act_blockId a of None \<Rightarrow> AIR | Some b \<Rightarrow> b) else AIR)"

definition apply_chunk :: "action \<Rightarrow> VoxelChunk \<Rightarrow> VoxelChunk" where
  "apply_chunk a ch =
     setBlock ch (cx (act_cell a)) (cy (act_cell a)) (cz (act_cell a)) (action_value a)"

section \<open>Gestures\<close>

text \<open>
  The controller is idle when no pointer is tracked and no long-press timeout is pending.
  A gesture starts with the pointer-down that begins tracking and lasts for as long as a
  pointer is tracked. While it lasts, pointer events of any pointer may arrive, both
  timeouts may fire (the save timeout may have been armed by the gesture's own commit),
  the page may be hidden and a block type may be picked. The history buttons (undo,
  redo, reset) are commands of their own: they rewrite the undo stack, by which the
  commits of a gesture are counted here, and are not events of a gesture.
  \<open>in_gesture s0 s\<close> holds for the states \<open>s\<close> of a gesture started in \<open>s0\<close>, the state its
  last event leaves included.
\<close>

definition idle :: "state \<Rightarrow> bool" where
  "idle s = (pointerId (pointerState s) = None \<and> \<not> timer (pointerState s))"

fun gesture_event :: "event \<Rightarrow> bool" where
  "gesture_event UndoClick = False"
| "gesture_event RedoClick = False"
| "gesture_event ResetClick = False"
| "gesture_event ev = True"

inductive in_gesture :: "state \<Rightarrow> state \<Rightarrow> bool" for s0 :: state where
  gesture_start:
    "pointerId (pointerState (handlePointerDown pf pid button coords s0)) \<noteq> None \<Longrightarrow>
       in_gesture s0 (handlePointerDown pf pid button coords s0)"
| gesture_step:
    "in_gesture s0 s \<Longrightarrow> pointerId (pointerState s) \<noteq> None \<Longrightarrow> gesture_event ev \<Longrightarrow>
       in_gesture s0 (step pf tr s ev)"

text \<open>
  \<open>commits s0 s n\<close>: since \<open>s0\<close> exactly \<open>n\<close> edits were committed (\<open>n\<close> is 0 or 1), as
  the undo stack and the grid show.
\<close>

definition commits :: "state \<Rightarrow> state \<Rightarrow> nat \<Rightarrow> bool" where
  "commits s0 s n =
     (if n = 0 then undoStack s = undoStack s0 \<and> chunk s = chunk s0
      else if n = 1
      then (case undoStack s of
              [] \<Rightarrow> False
            | a # rest \<Rightarrow> rest = undoStack s0 \<and> chunk s = apply_chunk a (chunk s0))
      else False)"

definition gesture_inv :: "state \<Rightarrow> state \<Rightarrow> bool" where
  "gesture_inv s0 s =
     (\<not> isRestoring s
      \<and> (if pointerId (pointerState s) \<noteq> None \<and> \<not> longPressFired (pointerState s)
         then commits s0 s 0
         else \<not> timer (pointerState s) \<and> (commits s0 s 0 \<or> commits s0 s 1)))"

text \<open>
  Two gestures on the concrete scene, with pointer 1 over the top face of the stone block:
  a press held until the long-press timeout fires and then until the save timeout, which
  the Remove armed, fires too; and a tap.
\<close>

definition pressed_state :: state where
  "pressed_state = handlePointerDown top_face_platform 1 0 (0, 0) (initial_state stone_chunk)"

definition held_state :: state where
  "held_state = longPressTimeout top_face_platform pressed_state"

definition held_saved_state :: state where
  "held_saved_state = step top_face_platform [] held_state SaveTimeout"

definition tapped_state :: state where
  "tapped_state = handlePointerUp top_face_platform 1 pressed_state"

section \<open>Sequences of committed edits\<close>

text \<open>
  \<open>committed_edits s0 n s\<close>: the state \<open>s\<close> comes from \<open>s0\<close> by \<open>n\<close> calls of \<open>attemptPlace\<close>
  or \<open>attemptRemove\<close> that each committed (changed the state), with changes of the
  selected block type in between.
\<close>

inductive committed_edits :: "state \<Rightarrow> nat \<Rightarrow> state \<Rightarrow> bool" for s0 :: state where
  edits_none: "committed_edits s0 0 s0"
| edits_place:
    "committed_edits s0 n s \<Longrightarrow> attemptPlace pf (Some c) s \<noteq> s \<Longrightarrow>
       committed_edits s0 (Suc n) (attemptPlace pf (Some c) s)"
| edits_remove:
    "committed_edits s0 n s \<Longrightarrow> attemptRemove pf (Some c) s \<noteq> s \<Longrightarrow>
       committed_edits s0 (Suc n) (attemptRemove pf (Some c) s)"
| edits_select:
    "committed_edits s0 n s \<Longrightarrow> committed_edits s0 n (setSelectedBlock b s)"

text \<open>
  The actions \<open>as\<close> (latest first) were recorded on top of the undo stack of \<open>s0\<close>, and the
  grids of \<open>s0\<close> and \<open>s\<close> are related by applying them, or their inverses, in turn.
\<close>

definition edit_trace :: "state \<Rightarrow> action list \<Rightarrow> state \<Rightarrow> bool" where
  "edit_trace s0 as s =
     (undoStack s = as @ undoStack s0 \<and> (as \<noteq> [] \<longrightarrow> redoStack s = [])
      \<and> \<not> isRestoring s \<and> chunk_ok (chunk s)
      \<and> fold (\<lambda>a. apply_chunk (invertAction a)) as (chunk s) = chunk s0
      \<and> fold apply_chunk (rev as) (chunk s0) = chunk s)"

text \<open>Two edits on the concrete scene: grass placed on top of the stone block, then removed.\<close>

definition placed_state :: state where
  "placed_state =
     attemptPlace top_face_platform (Some \<lparr>cx = 8, cy = 1, cz = 8\<rparr>) pointing_state"

definition placed_removed_state :: state where
  "placed_removed_state =
     attemptRemove top_face_platform (Some \<lparr>cx = 8, cy = 1, cz = 8\<rparr>) placed_state"

section \<open>Properties of the grid\<close>

lemma getIndex_nonneg:
  assumes "inBounds ch x y z"
  shows "0 \<le> getIndex ch x y z"
proof -
  from assms have "0 \<le> y * width ch" "0 \<le> depth ch" "0 \<le> z * width ch" "0 \<le> x"
    by (simp_all add: inBounds_def)
  then have "0 \<le> y * width ch * depth ch" by simp
  with \<open>0 \<le> z * width ch\<close> \<open>0 \<le> x\<close> show ?thesis
    by (simp add: getIndex_def)
qed

lemma getIndex_less:
  assumes "inBounds ch x y z"
  shows "getIndex ch x y z < cellCount ch"
proof -
  from assms have b: "0 \<le> x" "x + 1 \<le> width ch" "0 \<le> y" "y + 1 \<le> height ch"
    "0 \<le> z" "z + 1 \<le> depth ch"
    by (simp_all add: inBounds_def)
  have w: "0 \<le> width ch" using b by linarith
  have "z * width ch + x + 1 \<le> z * width ch + width ch"
    using b by linarith
  also have "\<dots> = (z + 1) * width ch" by (simp add: algebra_simps)
  also have "\<dots> \<le> depth ch * width ch"
    using b w by (intro mult_right_mono) simp_all
  finally have row: "z * width ch + x + 1 \<le> depth ch * width ch" .
  have wd: "0 \<le> depth ch * width ch" using b w by simp
  have "getIndex ch x y z + 1 = y * (depth ch * width ch) + (z * width ch + x + 1)"
    by (simp add: getIndex_def algebra_simps)
  also have "\<dots> \<le> y * (depth ch * width ch) + depth ch * width ch"
    using row by linarith
  also have "\<dots> = (y + 1) * (depth ch * width ch)" by (simp add: algebra_simps)
  also have "\<dots> \<le> height ch * (depth ch * width ch)"
    using b wd by (intro mult_right_mono) simp_all
  also have "\<dots> = cellCount ch" by (simp add: cellCount_def algebra_simps)
  finally show ?thesis by linarith
qed

lemma getIndex_in_range:
  "chunk_ok ch \<Longrightarrow> inBounds ch x y z \<Longrightarrow>
     0 \<le> getIndex ch x y z \<and> getIndex ch x y z < int (length (data ch))"
  using getIndex_nonneg getIndex_less by (simp add: chunk_ok_def)

lemma inBounds_setBlock [simp]:
  "inBounds (setBlock ch x y z v) x' y' z' = inBounds ch x' y' z'"
  by (simp add: setBlock_def inBounds_def)

lemma dims_setBlock [simp]:
  "width (setBlock ch x y z v) = width ch"
  "height (setBlock ch x y z v) = height ch"
  "depth (setBlock ch x y z v) = depth ch"
  by (simp_all add: setBlock_def)

lemma length_ta_set [simp]: "length (ta_set a i v) = length a"
  by (simp add: ta_set_def)

lemma chunk_ok_setBlock [simp]: "chunk_ok (setBlock ch x y z v) = chunk_ok ch"
  by (simp add: chunk_ok_def cellCount_def setBlock_def)

lemma getIndex_setBlock [simp]:
  "getIndex (setBlock ch x y z v) x' y' z' = getIndex ch x' y' z'"
  by (simp add: getIndex_def)

lemma getBlock_setBlock_same:
  assumes "chunk_ok ch" and "inBounds ch x y z"
  shows "getBlock (setBlock ch x y z v) x y z = Some v"
proof -
  from assms have r: "0 \<le> getIndex ch x y z" "getIndex ch x y z < int (length (data ch))"
    using getIndex_in_range by simp_all
  then have "nat (getIndex ch x y z) < length (data ch)" by linarith
  with r assms show ?thesis
    by (simp add: getBlock_def) (simp add: setBlock_def ta_get_def ta_set_def)
qed

lemma getBlock_out_of_bounds: "\<not> inBounds ch x y z \<Longrightarrow> getBlock ch x y z = Some AIR"
  by (simp add: getBlock_def)

lemma setBlock_out_of_bounds: "\<not> inBounds ch x y z \<Longrightarrow> setBlock ch x y z v = ch"
  by (simp add: setBlock_def)

lemma getBlock_defined:
  "chunk_ok ch \<Longrightarrow> \<exists>b. getBlock ch x y z = Some b"
  using getIndex_in_range [of ch x y z]
  by (simp add: getBlock_def ta_get_def)

text \<open>
  Claim C1. For every in-bounds coordinate and every block value \<open>v\<close>, \<open>getBlock\<close>
  right after \<open>setBlock\<close> returns \<open>v\<close> (on a chunk whose array has the length the
  constructor gave it); for every out-of-bounds coordinate \<open>getBlock\<close> returns \<open>AIR\<close>
  whatever the array holds and \<open>setBlock\<close> returns the chunk as it was. Both functions
  are total: a read never yields \<^verbatim>\<open>undefined\<close> and a write keeps the chunk's shape.
\<close>

theorem getBlock_setBlock_contract:
  "(chunk_ok ch \<and> inBounds ch x y z \<longrightarrow> getBlock (setBlock ch x y z v) x y z = Some v)
   \<and> (\<not> inBounds ch x y z \<longrightarrow>
        getBlock ch x y z = Some AIR \<and> setBlock ch x y z v = ch)
   \<and> (chunk_ok ch \<longrightarrow>
        (\<exists>b. getBlock ch x y z = Some b) \<and> chunk_ok (setBlock ch x y z v))"
  by (simp add: getBlock_setBlock_same getBlock_out_of_bounds setBlock_out_of_bounds
      getBlock_defined)

text \<open>The program's chunk, with an in-bounds and an out-of-bounds coordinate.\<close>

lemma chunk_ok_initial: "chunk_ok initial_chunk"
  by (simp add: chunk_ok_def cellCount_def initial_chunk_def new_VoxelChunk_def
      CHUNK_SIZE_def CHUNK_HEIGHT_def)

lemma dims_initial [simp]:
  "width initial_chunk = 16" "height initial_chunk = 12" "depth initial_chunk = 16"
  by (simp_all add: initial_chunk_def new_VoxelChunk_def CHUNK_SIZE_def CHUNK_HEIGHT_def)

theorem getBlock_setBlock_contract_witness:
  "chunk_ok initial_chunk \<and> inBounds initial_chunk 8 0 8
   \<and> getBlock (setBlock initial_chunk 8 0 8 STONE) 8 0 8 = Some STONE
   \<and> \<not> inBounds initial_chunk 16 0 8
   \<and> getBlock initial_chunk 16 0 8 = Some AIR
   \<and> setBlock initial_chunk 16 0 8 STONE = initial_chunk
   \<and> (\<exists>b. getBlock initial_chunk 8 0 8 = Some b)"
proof -
  have i: "inBounds initial_chunk 8 0 8" and o: "\<not> inBounds initial_chunk 16 0 8"
    by (simp_all add: inBounds_def)
  from getBlock_setBlock_contract [of initial_chunk 8 0 8 STONE]
    getBlock_setBlock_contract [of initial_chunk 16 0 8 STONE]
  show ?thesis using chunk_ok_initial i o by simp
qed

section \<open>Properties of the codec\<close>

lemma distinct_alphabet: "distinct b64_alphabet"
  by (simp add: b64_alphabet_def)

lemma length_alphabet: "length b64_alphabet = 64"
  by (simp add: b64_alphabet_def)

lemma index_of_nth: "distinct xs \<Longrightarrow> n < length xs \<Longrightarrow> index_of (xs ! n) xs = Some n"
proof (induction xs arbitrary: n)
  case Nil
  then show ?case by simp
next
  case (Cons a xs)
  then show ?case by (cases n) auto
qed

lemma b64_value_char: "n < 64 \<Longrightarrow> b64_value (b64_char n) = Some n"
  by (simp add: b64_value_def b64_char_def index_of_nth distinct_alphabet length_alphabet)

lemma eq_notin: "CHR ''='' \<notin> set b64_alphabet"
  by (simp add: b64_alphabet_def)

lemma ws_notin: "c \<in> set b64_alphabet \<Longrightarrow> \<not> is_ascii_whitespace c"
  by (auto simp add: b64_alphabet_def is_ascii_whitespace_def)

lemma b64_char_in: "n < 64 \<Longrightarrow> b64_char n \<in> set b64_alphabet"
  by (simp add: b64_char_def length_alphabet)

lemma unat_byte_less: "unat (a :: byte) < 256"
  using unsigned_less [of a, where ?'a = nat] by simp

lemma sextet_bounds:
  fixes a b :: nat
  assumes "b < 256"
  shows "a mod 4 * 16 + b div 16 < 64" "a mod 16 * 4 + b div 64 < 64"
proof -
  have "a mod 4 < 4" "a mod 16 < 16" by simp_all
  moreover have "b div 16 < 16" "b div 64 < 4" using assms by (simp_all add: less_mult_imp_div_less)
  ultimately show "a mod 4 * 16 + b div 16 < 64" "a mod 16 * 4 + b div 64 < 64" by linarith+
qed

lemma sextets_less: "n \<in> set (b64_sextets bs) \<Longrightarrow> n < 64"
proof (induction bs arbitrary: n rule: b64_sextets.induct)
  case (1 a b c rest)
  have l: "unat a < 256" "unat b < 256" "unat c < 256" by (rule unat_byte_less)+
  have "unat a div 4 < 64" using l by (simp add: less_mult_imp_div_less)
  moreover have "unat a mod 4 * 16 + unat b div 16 < 64" "unat b mod 16 * 4 + unat c div 64 < 64"
    using l sextet_bounds by simp_all
  moreover have "unat c mod 64 < 64" by simp
  ultimately show ?case using 1 by auto
next
  case (2 a b)
  have l: "unat a < 256" "unat b < 256" by (rule unat_byte_less)+
  have "unat a div 4 < 64" using l by (simp add: less_mult_imp_div_less)
  moreover have "unat a mod 4 * 16 + unat b div 16 < 64"
    using l sextet_bounds by simp
  moreover have "unat b mod 16 < 16" by simp
  then have "unat b mod 16 * 4 < 64" by linarith
  ultimately show ?case using 2 by auto
next
  case (3 a)
  have l: "unat a < 256" by (rule unat_byte_less)
  have "unat a div 4 < 64" using l by (simp add: less_mult_imp_div_less)
  moreover have "unat a mod 4 < 4" by simp
  then have "unat a mod 4 * 16 < 64" by linarith
  ultimately show ?case using 3 by auto
next
  case 4
  then show ?case by simp
qed

lemma b64_values_chars: "\<forall>n \<in> set ns. n < 64 \<Longrightarrow> b64_values (map b64_char ns) = Some ns"
  by (induction ns) (simp_all add: b64_value_char)

lemma regroup:
  fixes a b :: nat
  assumes "b < k * m" "0 < k"
  shows "(a * k + b div m) div k = a" "(a * k + b div m) mod k = b div m"
proof -
  have "b div m < k" using assms by (simp add: less_mult_imp_div_less mult.commute)
  then show "(a * k + b div m) div k = a" "(a * k + b div m) mod k = b div m" by simp_all
qed

lemma b64_bytes_sextets: "b64_bytes (b64_sextets bs) = bs"
proof (induction bs rule: b64_sextets.induct)
  case (1 a b c rest)
  have l: "unat a < 256" "unat b < 256" "unat c < 256" by (rule unat_byte_less)+
  have "(unat a mod 4 * 16 + unat b div 16) div 16 = unat a mod 4"
    "(unat a mod 4 * 16 + unat b div 16) mod 16 = unat b div 16"
    using regroup [of "unat b" 16 16 "unat a mod 4"] l by simp_all
  moreover have "(unat b mod 16 * 4 + unat c div 64) div 4 = unat b mod 16"
    "(unat b mod 16 * 4 + unat c div 64) mod 4 = unat c div 64"
    using regroup [of "unat c" 4 64 "unat b mod 16"] l by simp_all
  ultimately show ?case using 1 by simp
next
  case (2 a b)
  have l: "unat a < 256" "unat b < 256" by (rule unat_byte_less)+
  have "(unat a mod 4 * 16 + unat b div 16) div 16 = unat a mod 4"
    "(unat a mod 4 * 16 + unat b div 16) mod 16 = unat b div 16"
    using regroup [of "unat b" 16 16 "unat a mod 4"] l by simp_all
  then show ?case by simp
next
  case (3 a)
  show ?case by simp
next
  case 4
  then show ?case by simp
qed

lemma length_sextets:
  "length (b64_sextets bs) =
     4 * (length bs div 3) + (if length bs mod 3 = 0 then 0 else length bs mod 3 + 1)"
  by (induction bs rule: b64_sextets.induct) simp_all


lemma chars_in_alphabet:
  "c \<in> set (map b64_char (b64_sextets bs)) \<Longrightarrow> c \<in> set b64_alphabet"
  using sextets_less b64_char_in by auto

lemma chars_not_eq: "c \<in> set (map b64_char (b64_sextets bs)) \<Longrightarrow> c \<noteq> CHR ''=''"
  using chars_in_alphabet eq_notin by blast

lemma filter_btoa: "filter (\<lambda>c. \<not> is_ascii_whitespace c) (btoa bs) = btoa bs"
proof -
  have "\<not> is_ascii_whitespace c" if "c \<in> set (btoa bs)" for c
  proof -
    from that consider "c \<in> set (map b64_char (b64_sextets bs))" | "c = CHR ''=''"
      by (auto simp: btoa_def b64_padding_def)
    then show ?thesis
    proof cases
      case 1
      then show ?thesis using chars_in_alphabet ws_notin by blast
    next
      case 2
      then show ?thesis by (simp add: is_ascii_whitespace_def)
    qed
  qed
  then show ?thesis by (simp add: filter_id_conv)
qed

lemma last_chars_not_eq:
  "b64_sextets bs \<noteq> [] \<Longrightarrow> last (map b64_char (b64_sextets bs)) \<noteq> CHR ''=''"
  using chars_not_eq [of "last (map b64_char (b64_sextets bs))" bs] last_in_set
  by (metis map_is_Nil_conv)

lemma mod3_cases: "(n::nat) mod 3 = 0 \<or> n mod 3 = 1 \<or> n mod 3 = 2"
  by arith

lemma strip_padding_btoa: "strip_padding (btoa bs) = map b64_char (b64_sextets bs)"
proof -
  let ?S = "map b64_char (b64_sextets bs)"
  have len: "length ?S = 4 * (length bs div 3)
      + (if length bs mod 3 = 0 then 0 else length bs mod 3 + 1)"
    by (simp add: length_sextets)
  from mod3_cases [of "length bs"] show ?thesis
  proof (elim disjE)
    assume m: "length bs mod 3 = 0"
    then have b: "btoa bs = ?S" by (simp add: btoa_def b64_padding_def)
    show ?thesis
    proof (cases "b64_sextets bs = []")
      case True
      then show ?thesis by (simp add: b strip_padding_def)
    next
      case False
      then show ?thesis using last_chars_not_eq [of bs] by (simp add: b strip_padding_def)
    qed
  next
    assume m: "length bs mod 3 = 1"
    then have b: "btoa bs = ?S @ [CHR ''='', CHR ''='']"
      by (simp add: btoa_def b64_padding_def numeral_2_eq_2)
    have "length (btoa bs) mod 4 = 0" using len m by (simp add: b)
    moreover have "butlast (?S @ [CHR ''='', CHR ''='']) = ?S @ [CHR ''='']"
      by (simp add: butlast_append)
    ultimately show ?thesis by (simp add: b strip_padding_def)
  next
    assume m: "length bs mod 3 = 2"
    then have b: "btoa bs = ?S @ [CHR ''='']"
      by (simp add: btoa_def b64_padding_def)
    have l4: "length (btoa bs) mod 4 = 0" using len m by (simp add: b)
    have ne: "b64_sextets bs \<noteq> []" using len m by auto
    show ?thesis using l4 ne last_chars_not_eq [of bs] by (simp add: b strip_padding_def)
  qed
qed

lemma length_sextets_mod4: "length (b64_sextets bs) mod 4 \<noteq> 1"
  using mod3_cases [of "length bs"] by (auto simp: length_sextets)

lemma atob_btoa: "atob (btoa bs) = Inr bs"
  using length_sextets_mod4 [of bs] sextets_less [of _ bs]
  by (simp add: atob_def filter_btoa strip_padding_btoa b64_values_chars b64_bytes_sextets)

lemma decode_loop_prefix:
  assumes "k \<le> length a" "length bin = length a"
  shows "length (fold (\<lambda>i a. ta_set a (int i) (bin ! i)) [0..<k] a) = length a
       \<and> (\<forall>j < length a. fold (\<lambda>i a. ta_set a (int i) (bin ! i)) [0..<k] a ! j
              = (if j < k then bin ! j else a ! j))"
  using assms
proof (induction k)
  case 0
  then show ?case by simp
next
  case (Suc k)
  then show ?case by (auto simp: ta_set_def nth_list_update less_Suc_eq)
qed

lemma decode_loop_copies: "length bin = length a \<Longrightarrow> decode_loop bin a = bin"
  using decode_loop_prefix [of "length a" a bin]
  by (auto simp: decode_loop_def intro: nth_equalityI)

lemma getBlock_same_data:
  assumes "width ch' = width ch" "depth ch' = depth ch" "height ch' = height ch"
    and "data ch' = data ch"
  shows "getBlock ch' x y z = getBlock ch x y z"
  using assms by (simp add: getBlock_def inBounds_def getIndex_def)

text \<open>
  Claim C2. The text \<open>encodeChunkData\<close> makes of a chunk decodes without an error into
  any chunk of the same dimensions and array length (the same chunk object, or the one a
  later run of the program constructs), and afterwards every cell reads as in the
  encoded chunk.
\<close>

theorem encode_decode_roundtrip:
  assumes "width ch' = width ch" "height ch' = height ch" "depth ch' = depth ch"
    and "length (data ch') = length (data ch)"
  shows "decodeChunkData (encodeChunkData ch) ch' = (None, ch'\<lparr>data := data ch\<rparr>)
       \<and> (\<forall>x y z. getBlock (snd (decodeChunkData (encodeChunkData ch) ch')) x y z
              = getBlock ch x y z)"
proof -
  have d: "decodeChunkData (encodeChunkData ch) ch' = (None, ch'\<lparr>data := data ch\<rparr>)"
    using assms
    by (simp add: decodeChunkData_def encodeChunkData_def atob_btoa decode_loop_copies)
  moreover have "getBlock (ch'\<lparr>data := data ch\<rparr>) x y z = getBlock ch x y z" for x y z
    using assms by (intro getBlock_same_data) simp_all
  ultimately show ?thesis by simp
qed

theorem encode_decode_roundtrip_witness:
  "length (data initial_chunk) = length (data (setBlock initial_chunk 8 0 8 STONE))
   \<and> decodeChunkData (encodeChunkData (setBlock initial_chunk 8 0 8 STONE)) initial_chunk
       = (None, initial_chunk\<lparr>data := data (setBlock initial_chunk 8 0 8 STONE)\<rparr>)
   \<and> getBlock (snd (decodeChunkData (encodeChunkData (setBlock initial_chunk 8 0 8 STONE))
         initial_chunk)) 8 0 8 = Some STONE"
proof -
  have l: "length (data initial_chunk) = length (data (setBlock initial_chunk 8 0 8 STONE))"
    by (simp add: setBlock_def)
  have g: "getBlock (setBlock initial_chunk 8 0 8 STONE) 8 0 8 = Some STONE"
    using chunk_ok_initial by (intro getBlock_setBlock_same) (simp_all add: inBounds_def)
  have r: "decodeChunkData (encodeChunkData (setBlock initial_chunk 8 0 8 STONE)) initial_chunk
        = (None, initial_chunk\<lparr>data := data (setBlock initial_chunk 8 0 8 STONE)\<rparr>)
     \<and> (\<forall>x y z. getBlock (snd (decodeChunkData
            (encodeChunkData (setBlock initial_chunk 8 0 8 STONE)) initial_chunk)) x y z
          = getBlock (setBlock initial_chunk 8 0 8 STONE) x y z)"
    using l by (intro encode_decode_roundtrip) simp_all
  then have "getBlock (snd (decodeChunkData
        (encodeChunkData (setBlock initial_chunk 8 0 8 STONE)) initial_chunk)) 8 0 8
      = getBlock (setBlock initial_chunk 8 0 8 STONE) 8 0 8"
    by blast
  with r l g show ?thesis by simp
qed

text \<open>
  Claim C3. When the text decodes to a number of bytes other than
  \<open>width * height * depth\<close>, \<open>decodeChunkData\<close> throws the length-mismatch error and the
  chunk is exactly as before the call.
\<close>

theorem decode_length_mismatch:
  assumes "chunk_ok ch" and "atob encoded = Inr bytes"
    and "int (length bytes) \<noteq> width ch * height ch * depth ch"
  shows "decodeChunkData encoded ch = (Some LengthMismatch, ch)"
  using assms by (auto simp: decodeChunkData_def chunk_ok_def cellCount_def)

text \<open>A text of three bytes does not fit the chunk of 3072 cells.\<close>

lemma atob_AQID: "atob ''AQID'' = Inr [1, 2, 3]"
  by (simp add: atob_def strip_padding_def is_ascii_whitespace_def b64_value_def
      b64_alphabet_def)

theorem decode_length_mismatch_witness:
  "chunk_ok initial_chunk \<and> atob ''AQID'' = Inr [1, 2, 3]
   \<and> int (length [1 :: byte, 2, 3]) \<noteq> width initial_chunk * height initial_chunk * depth initial_chunk
   \<and> decodeChunkData ''AQID'' initial_chunk = (Some LengthMismatch, initial_chunk)"
proof -
  have n: "int (length [1 :: byte, 2, 3])
      \<noteq> width initial_chunk * height initial_chunk * depth initial_chunk"
    by simp
  from decode_length_mismatch [OF chunk_ok_initial atob_AQID n] chunk_ok_initial atob_AQID n
  show ?thesis by simp
qed

lemma decode_invalid_text:
  "atob encoded = Inl e \<Longrightarrow> decodeChunkData encoded ch = (Some e, ch)"
  by (simp add: decodeChunkData_def)

section \<open>Properties of the coordinate mapper\<close>

lemma VOXEL_SIZE_simps: "x / VOXEL_SIZE = x" "x * VOXEL_SIZE = x"
  by (simp_all add: VOXEL_SIZE_def)

lemma worldPointToCell_cellToWorld:
  "inBounds ch x y z \<Longrightarrow>
     worldPointToCell exact_add ch (cellToWorld ch x y z) snapY
       = Some \<lparr>cx = x, cy = y, cz = z\<rparr>"
  by (simp add: worldPointToCell_def exact_add_def cellToWorld_def halfWidth_def halfDepth_def
      VOXEL_SIZE_simps Let_def)

text \<open>
  Claim C8, as the code has it. On the x and z axes the cell is the floor of
  (position + half the footprint) / size. On the vertical axis both modes round to the
  nearest cell, the floor of \<open>yRaw + 0.5\<close>, since a cell is centred on \<open>y * VOXEL_SIZE\<close>;
  the modes differ only in \<open>yRaw\<close> (\<open>y / VOXEL_SIZE\<close> when snapped, \<open>y\<close> for the ground pick)
  and so agree, \<open>VOXEL_SIZE\<close> being 1. Each sum is the rounded sum \<open>add\<close> of JavaScript
  numbers. The result is \<open>None\<close> exactly when that cell is out of bounds.
\<close>

theorem worldPointToCell_policy:
  "worldPointToCell add ch p snapY =
     (if inBounds ch \<lfloor>add (vx p) (real_of_int (width ch) / 2)\<rfloor> \<lfloor>add (vy p) (1 / 2)\<rfloor>
            \<lfloor>add (vz p) (real_of_int (depth ch) / 2)\<rfloor>
      then Some \<lparr>cx = \<lfloor>add (vx p) (real_of_int (width ch) / 2)\<rfloor>,
                 cy = \<lfloor>add (vy p) (1 / 2)\<rfloor>,
                 cz = \<lfloor>add (vz p) (real_of_int (depth ch) / 2)\<rfloor>\<rparr>
      else None)
   \<and> worldPointToCell add ch p True = worldPointToCell add ch p False
   \<and> (worldPointToCell add ch p snapY = None) =
       (\<not> inBounds ch \<lfloor>add (vx p) (real_of_int (width ch) / 2)\<rfloor> \<lfloor>add (vy p) (1 / 2)\<rfloor>
            \<lfloor>add (vz p) (real_of_int (depth ch) / 2)\<rfloor>)"
  by (simp add: worldPointToCell_def halfWidth_def halfDepth_def VOXEL_SIZE_simps Let_def)

text \<open>
  Where a sum rounds up to the grid's width the point is out of bounds, as in the code:
  with the binary64 addition, \<open>7.999999999999999 + 8\<close> is 16.
\<close>

lemma worldPointToCell_rounded_out:
  "add (vx p) 8 = 16 \<Longrightarrow> worldPointToCell add initial_chunk p snapY = None"
  by (simp add: worldPointToCell_def halfWidth_def halfDepth_def VOXEL_SIZE_simps Let_def
      inBounds_def)

text \<open>
  The claim as stated fails: in snapped mode the point \<open>(0, 0.5, 0)\<close> resolves to the cell
  \<open>(8, 1, 8)\<close>, while the floor of position / size on the vertical axis is 0. The sums
  taken, \<open>0 + 8\<close> and \<open>0.5 + 0.5\<close>, are exact in binary64.
\<close>

theorem worldPointToCell_snapped_counterexample:
  "worldPointToCell exact_add initial_chunk \<lparr>vx = 0, vy = 1 / 2, vz = 0\<rparr> True
      = Some \<lparr>cx = 8, cy = 1, cz = 8\<rparr>
   \<and> spec_snapped_worldToCell exact_add initial_chunk \<lparr>vx = 0, vy = 1 / 2, vz = 0\<rparr>
      = Some \<lparr>cx = 8, cy = 0, cz = 8\<rparr>
   \<and> worldPointToCell exact_add initial_chunk \<lparr>vx = 0, vy = 1 / 2, vz = 0\<rparr> True
      \<noteq> spec_snapped_worldToCell exact_add initial_chunk \<lparr>vx = 0, vy = 1 / 2, vz = 0\<rparr>"
  by (simp add: worldPointToCell_def spec_snapped_worldToCell_def exact_add_def halfWidth_def
      halfDepth_def VOXEL_SIZE_def inBounds_def)

section \<open>Properties of the picker\<close>

lemma updateHoverFromPointer_frame [simp]:
  "chunk (updateHoverFromPointer pf s) = chunk s"
  "selectedBlockId (updateHoverFromPointer pf s) = selectedBlockId s"
  "undoStack (updateHoverFromPointer pf s) = undoStack s"
  "redoStack (updateHoverFromPointer pf s) = redoStack s"
  "isRestoring (updateHoverFromPointer pf s) = isRestoring s"
  "saveTimer (updateHoverFromPointer pf s) = saveTimer s"
  "lastPointerCoords (updateHoverFromPointer pf s) = lastPointerCoords s"
  "pointerState (updateHoverFromPointer pf s) = pointerState s"
  by (simp_all add: updateHoverFromPointer_def Let_def split: option.splits prod.splits)

lemma updateHoverFromPointer_ground_frame [simp]:
  "chunk (updateHoverFromPointer_ground pf s) = chunk s"
  "undoStack (updateHoverFromPointer_ground pf s) = undoStack s"
  "redoStack (updateHoverFromPointer_ground pf s) = redoStack s"
  "pointerState (updateHoverFromPointer_ground pf s) = pointerState s"
  by (simp_all add: updateHoverFromPointer_ground_def Let_def split: option.splits prod.splits)

lemma worldPointToCell_inBounds:
  "worldPointToCell add ch p m = Some c \<Longrightarrow> inBounds ch (cx c) (cy c) (cz c)"
  by (auto simp: worldPointToCell_def Let_def split: if_splits)

lemma worldPointToCell_ground_inBounds:
  assumes "worldPointToCell add ch p m = Some c"
  shows "inBounds ch (cx c) 0 (cz c)"
  using worldPointToCell_inBounds [OF assms] by (auto simp: inBounds_def)

lemma hoverPlaceCell_empty:
  assumes "hoverPlaceCell (updateHoverFromPointer pf s) = Some c"
  shows "inBounds (chunk s) (cx c) (cy c) (cz c)
       \<and> getBlock (chunk s) (cx c) (cy c) (cz c) = Some AIR"
  using assms
  by (auto simp: updateHoverFromPointer_def Let_def split: option.splits prod.splits if_splits)

lemma hoverRemoveCell_inBounds:
  assumes "hoverRemoveCell (updateHoverFromPointer pf s) = Some c"
  shows "inBounds (chunk s) (cx c) (cy c) (cz c)"
  using assms
  by (auto simp: updateHoverFromPointer_def Let_def worldPointToCell_inBounds
      split: option.splits prod.splits if_splits)

lemma hoverPlaceCell_ground_empty:
  assumes "hoverPlaceCell (updateHoverFromPointer_ground pf s) = Some c"
  shows "inBounds (chunk s) (cx c) (cy c) (cz c)
       \<and> getBlock (chunk s) (cx c) (cy c) (cz c) = Some AIR"
  using assms
  by (auto simp: updateHoverFromPointer_ground_def Let_def
      dest: worldPointToCell_inBounds worldPointToCell_ground_inBounds
      split: option.splits prod.splits if_splits)

lemma hoverRemoveCell_ground_inBounds:
  assumes "hoverRemoveCell (updateHoverFromPointer_ground pf s) = Some c"
  shows "inBounds (chunk s) (cx c) (cy c) (cz c)"
  using assms
  by (auto simp: updateHoverFromPointer_ground_def Let_def
      dest: worldPointToCell_inBounds worldPointToCell_ground_inBounds
      split: option.splits prod.splits if_splits)

text \<open>
  What the picker does guarantee. In both variants a placement candidate is an in-bounds
  cell whose value is \<open>AIR\<close>, a removal candidate is an in-bounds cell, and the grid is
  not changed.
\<close>

lemma picker_candidates:
  "(hoverPlaceCell (updateHoverFromPointer pf s) = Some c \<longrightarrow>
      inBounds (chunk s) (cx c) (cy c) (cz c)
      \<and> getBlock (chunk s) (cx c) (cy c) (cz c) = Some AIR)
   \<and> (hoverRemoveCell (updateHoverFromPointer pf s) = Some c \<longrightarrow>
      inBounds (chunk s) (cx c) (cy c) (cz c))
   \<and> (hoverPlaceCell (updateHoverFromPointer_ground pf s) = Some c \<longrightarrow>
      inBounds (chunk s) (cx c) (cy c) (cz c)
      \<and> getBlock (chunk s) (cx c) (cy c) (cz c) = Some AIR)
   \<and> (hoverRemoveCell (updateHoverFromPointer_ground pf s) = Some c \<longrightarrow>
      inBounds (chunk s) (cx c) (cy c) (cz c))
   \<and> chunk (updateHoverFromPointer pf s) = chunk s
   \<and> chunk (updateHoverFromPointer_ground pf s) = chunk s"
  using hoverPlaceCell_empty hoverRemoveCell_inBounds hoverPlaceCell_ground_empty
    hoverRemoveCell_ground_inBounds
  by simp

text \<open>The picker on the concrete scene.\<close>

lemma stone_chunk_dims [simp]:
  "width stone_chunk = 16" "height stone_chunk = 12" "depth stone_chunk = 16"
  by (simp_all add: stone_chunk_def)

lemma length_initial_data [simp]: "length (data initial_chunk) = 3072"
  by (simp add: initial_chunk_def new_VoxelChunk_def CHUNK_SIZE_def CHUNK_HEIGHT_def)

lemma nth_initial_data: "i < 3072 \<Longrightarrow> data initial_chunk ! i = AIR"
proof -
  assume "i < 3072"
  then have "i < nat (CHUNK_SIZE * CHUNK_HEIGHT * CHUNK_SIZE)"
    by (simp add: CHUNK_SIZE_def CHUNK_HEIGHT_def)
  then have "replicate (nat (CHUNK_SIZE * CHUNK_HEIGHT * CHUNK_SIZE)) (0 :: byte) ! i = 0"
    by (rule nth_replicate)
  then show ?thesis
    by (simp only: initial_chunk_def new_VoxelChunk_def AIR_def VoxelChunk.simps)
qed

lemma stone_chunk_data: "data stone_chunk = (data initial_chunk)[136 := STONE]"
proof -
  have "inBounds initial_chunk 8 0 8" by (simp add: inBounds_def)
  moreover have "getIndex initial_chunk 8 0 8 = 136" by (simp add: getIndex_def)
  moreover have "ta_set (data initial_chunk) 136 STONE = (data initial_chunk)[136 := STONE]"
    by (simp add: ta_set_def)
  ultimately show ?thesis unfolding stone_chunk_def setBlock_def by simp
qed

lemma stone_chunk_cells:
  "getBlock stone_chunk 8 0 8 = Some STONE"
  "getBlock stone_chunk 8 1 8 = Some AIR"
  "getBlock stone_chunk 9 0 8 = Some AIR"
  "getBlock stone_chunk 9 1 8 = Some AIR"
  by (simp_all add: getBlock_def inBounds_def getIndex_def ta_get_def stone_chunk_data
      nth_initial_data)

lemma pointing_state_simps [simp]:
  "chunk pointing_state = stone_chunk"
  "lastPointerCoords pointing_state = Some (0, 0)"
  by (simp_all add: pointing_state_def initial_state_def)

lemma top_face_pick:
  "hoverRemoveCell (updateHoverFromPointer top_face_platform pointing_state)
     = Some \<lparr>cx = 8, cy = 0, cz = 8\<rparr>"
  "hoverPlaceCell (updateHoverFromPointer top_face_platform pointing_state)
     = Some \<lparr>cx = 8, cy = 1, cz = 8\<rparr>"
  by (simp_all add: updateHoverFromPointer_def top_face_platform_def exact_add_def worldPointToCell_def
      halfWidth_def halfDepth_def VOXEL_SIZE_def inBounds_def stone_chunk_cells)

text \<open>
  The removal candidate of the ground path (main.js) is never empty: that path reads the
  cell before it offers it.
\<close>

lemma ground_removal_nonempty:
  assumes "lastPointerCoords s = Some coords" and "raycast pf (chunk s) coords = Some h"
    and "\<not> hit_isBlock h \<or> hit_face h = None"
    and "hoverRemoveCell (updateHoverFromPointer_ground pf s) = Some c"
  shows "getBlock (chunk s) (cx c) (cy c) (cz c) \<noteq> Some AIR"
  using assms
  by (auto simp: updateHoverFromPointer_ground_def Let_def split: option.splits if_splits)

text \<open>
  With exact sums, a point resolves to the cell whose half-open cube holds it: the lower
  faces belong to the cell, the upper faces to its neighbour.
\<close>

lemma worldPointToCell_cube:
  "(worldPointToCell exact_add ch p snapY = Some c) =
     (inBounds ch (cx c) (cy c) (cz c)
      \<and> real_of_int (cx c) \<le> vx p + real_of_int (width ch) / 2
      \<and> vx p + real_of_int (width ch) / 2 < real_of_int (cx c) + 1
      \<and> real_of_int (cy c) - 1 / 2 \<le> vy p \<and> vy p < real_of_int (cy c) + 1 / 2
      \<and> real_of_int (cz c) \<le> vz p + real_of_int (depth ch) / 2
      \<and> vz p + real_of_int (depth ch) / 2 < real_of_int (cz c) + 1)"
proof -
  let ?x = "\<lfloor>vx p + real_of_int (width ch) / 2\<rfloor>"
  let ?y = "\<lfloor>vy p + 1 / 2\<rfloor>"
  let ?z = "\<lfloor>vz p + real_of_int (depth ch) / 2\<rfloor>"
  have w: "worldPointToCell exact_add ch p snapY =
      (if inBounds ch ?x ?y ?z then Some \<lparr>cx = ?x, cy = ?y, cz = ?z\<rparr> else None)"
    by (simp add: worldPointToCell_def exact_add_def halfWidth_def halfDepth_def
        VOXEL_SIZE_simps Let_def)
  have x: "(?x = cx c) = (real_of_int (cx c) \<le> vx p + real_of_int (width ch) / 2
      \<and> vx p + real_of_int (width ch) / 2 < real_of_int (cx c) + 1)"
    by (simp add: floor_eq_iff)
  have y: "(?y = cy c) = (real_of_int (cy c) - 1 / 2 \<le> vy p \<and> vy p < real_of_int (cy c) + 1 / 2)"
    by (auto simp: floor_eq_iff)
  have z: "(?z = cz c) = (real_of_int (cz c) \<le> vz p + real_of_int (depth ch) / 2
      \<and> vz p + real_of_int (depth ch) / 2 < real_of_int (cz c) + 1)"
    by (simp add: floor_eq_iff)
  have "(worldPointToCell exact_add ch p snapY = Some c)
      = (inBounds ch (cx c) (cy c) (cz c) \<and> ?x = cx c \<and> ?y = cy c \<and> ?z = cz c)"
    unfolding w by (cases c) auto
  then show ?thesis unfolding x y z by simp
qed

text \<open>
  Claim C6 is not kept by the code. The placement half holds (\<open>picker_candidates\<close>
  above), and so does the removal half on the ground path. On a block hit the removal
  candidate is whatever cell the nudged hit point resolves to, unread: the nudge is along
  the face normal only, so a hit on the upper boundary of a face across the normal falls
  into the neighbour's cube. On the scene, the ray hits the stone block at \<open>(8, 0, 8)\<close> on
  the edge \<open>x = 1\<close> of its top face, at \<open>(1, 0.5, 0.5)\<close>; the picker offers the empty cell
  \<open>(9, 0, 8)\<close> for removal, and \<open>(9, 1, 8)\<close> for placement, not the block that was hit.
\<close>

theorem picker_removal_edge_hit:
  "raycast top_edge_platform (chunk pointing_state) (0, 0)
     = Some \<lparr>hit_isBlock = True, hit_face = Some (0, 1, 0),
             hit_point = \<lparr>vx = 1, vy = 1 / 2, vz = 1 / 2\<rparr>\<rparr>
   \<and> getBlock (chunk pointing_state) 8 0 8 = Some STONE
   \<and> hoverRemoveCell (updateHoverFromPointer top_edge_platform pointing_state)
       = Some \<lparr>cx = 9, cy = 0, cz = 8\<rparr>
   \<and> getBlock (chunk (updateHoverFromPointer top_edge_platform pointing_state)) 9 0 8
       = Some AIR
   \<and> hoverPlaceCell (updateHoverFromPointer top_edge_platform pointing_state)
       = Some \<lparr>cx = 9, cy = 1, cz = 8\<rparr>"
  by (simp add: updateHoverFromPointer_def top_edge_platform_def exact_add_def
      worldPointToCell_def halfWidth_def halfDepth_def VOXEL_SIZE_def inBounds_def
      stone_chunk_cells)

section \<open>Properties of the history log and of edits\<close>

text \<open>
  Claim C5. \<open>pushAction\<close> leaves the redo stack empty, whatever the history was, and a
  \<open>redo\<close> right after it changes nothing.
\<close>

theorem pushAction_clears_redo:
  "length (redoStack (pushAction a s)) = 0
   \<and> undoStack (pushAction a s) = a # undoStack s
   \<and> redo (pushAction a s) = pushAction a s"
  by (simp add: pushAction_def redo_def)

lemma blockTypeById_simps:
  "blockTypeById b = (if b = AIR then Some \<lparr>bt_id = AIR, bt_placeable = False\<rparr>
     else if b \<in> {GRASS, SAND, STONE, WATER, WOOD} then Some \<lparr>bt_id = b, bt_placeable = True\<rparr>
     else None)"
  by (auto simp: blockTypeById_def BLOCK_TYPES_def AIR_def GRASS_def SAND_def STONE_def WATER_def WOOD_def)

lemma placeable_ids: "bt_id ` set placeableBlocks = {GRASS, SAND, STONE, WATER, WOOD}"
  by (auto simp: placeableBlocks_def BLOCK_TYPES_def AIR_def GRASS_def SAND_def STONE_def WATER_def WOOD_def)

text \<open>
  Claim C10. \<open>attemptPlace\<close> on a cell that is not empty, or with a selected id that is
  not a placeable block type, and \<open>attemptRemove\<close> on an empty cell return the state
  unchanged: the grid, both stacks and the save timer are as before.
\<close>

theorem rejected_edit_is_noop:
  "(getBlock (chunk s) (cx c) (cy c) (cz c) \<noteq> Some AIR
      \<or> selectedBlockId s \<notin> set (map bt_id placeableBlocks)
     \<longrightarrow> attemptPlace pf (Some c) s = s)
   \<and> (getBlock (chunk s) (cx c) (cy c) (cz c) = Some AIR \<longrightarrow> attemptRemove pf (Some c) s = s)"
  by (auto simp: attemptPlace_def attemptRemove_def placeable_ids blockTypeById_simps)

theorem rejected_edit_is_noop_witness:
  "getBlock (chunk pointing_state) 8 0 8 \<noteq> Some AIR
   \<and> attemptPlace top_face_platform (Some \<lparr>cx = 8, cy = 0, cz = 8\<rparr>) pointing_state
       = pointing_state
   \<and> getBlock (chunk pointing_state) 8 1 8 = Some AIR
   \<and> attemptRemove top_face_platform (Some \<lparr>cx = 8, cy = 1, cz = 8\<rparr>) pointing_state
       = pointing_state"
  using rejected_edit_is_noop [of pointing_state "\<lparr>cx = 8, cy = 0, cz = 8\<rparr>" top_face_platform]
    rejected_edit_is_noop [of pointing_state "\<lparr>cx = 8, cy = 1, cz = 8\<rparr>" top_face_platform]
  by (simp add: stone_chunk_cells STONE_def AIR_def)

lemma inBounds_shape:
  "width ch' = width ch \<Longrightarrow> height ch' = height ch \<Longrightarrow> depth ch' = depth ch \<Longrightarrow>
     inBounds ch' x y z = inBounds ch x y z"
  by (simp add: inBounds_def)

lemma inBounds_fillDefaultTerrain [simp]:
  "inBounds (fillDefaultTerrain tr ch) x y z = inBounds ch x y z"
  unfolding fillDefaultTerrain_def
  by (induction tr arbitrary: ch) (simp_all add: split_def)

section \<open>Properties of the reachable states\<close>

lemma candidates_inBounds_iff:
  "candidates_inBounds s =
     ((\<forall>c. hoverPlaceCell s = Some c \<longrightarrow> inBoundsCell (chunk s) c)
      \<and> (\<forall>c. placeCell (pointerState s) = Some c \<longrightarrow> inBoundsCell (chunk s) c))"
  by (auto simp: candidates_inBounds_def candidate_inBounds_def split: option.splits)

lemma attemptPlace_frame [simp]:
  "inBounds (chunk (attemptPlace pf cell s)) x y z = inBounds (chunk s) x y z"
  "pointerState (attemptPlace pf cell s) = pointerState s"
  "isRestoring (attemptPlace pf cell s) = isRestoring s"
  "selectedBlockId (attemptPlace pf cell s) = selectedBlockId s"
  "lastPointerCoords (attemptPlace pf cell s) = lastPointerCoords s"
  by (simp_all add: attemptPlace_def Let_def scheduleSave_def pushAction_def
      split: option.splits)

lemma attemptRemove_frame [simp]:
  "inBounds (chunk (attemptRemove pf cell s)) x y z = inBounds (chunk s) x y z"
  "pointerState (attemptRemove pf cell s) = pointerState s"
  "isRestoring (attemptRemove pf cell s) = isRestoring s"
  "selectedBlockId (attemptRemove pf cell s) = selectedBlockId s"
  "lastPointerCoords (attemptRemove pf cell s) = lastPointerCoords s"
  by (simp_all add: attemptRemove_def Let_def scheduleSave_def pushAction_def
      split: option.splits)

lemma updateHoverFromPointer_inv: "state_inv s \<Longrightarrow> state_inv (updateHoverFromPointer pf s)"
  using hoverPlaceCell_empty [of pf s]
  by (auto simp: state_inv_def history_inBounds_def candidates_inBounds_iff)

lemma hover_reset_inv:
  "state_inv s \<Longrightarrow> state_inv (s\<lparr>hoverPlaceCell := None, hoverRemoveCell := None\<rparr>)"
  by (auto simp: state_inv_def history_inBounds_def candidates_inBounds_iff)

lemma attemptPlace_cases:
  assumes "\<not> isRestoring s"
  shows "attemptPlace pf cell s = s
       \<or> (\<exists>c bt. cell = Some c \<and> blockTypeById (selectedBlockId s) = Some bt
            \<and> bt_id bt \<noteq> AIR \<and> getBlock (chunk s) (cx c) (cy c) (cz c) = Some AIR
            \<and> attemptPlace pf cell s = updateHoverFromPointer pf (placed c (bt_id bt) s))"
proof (cases cell)
  case None
  then show ?thesis by (simp add: attemptPlace_def)
next
  case (Some c)
  show ?thesis
  proof (cases "blockTypeById (selectedBlockId s)")
    case None
    with Some show ?thesis by (simp add: attemptPlace_def)
  next
    case bt: (Some bt)
    show ?thesis
    proof (cases "bt_id bt = AIR \<or> getBlock (chunk s) (cx c) (cy c) (cz c) \<noteq> Some AIR")
      case True
      with Some bt show ?thesis by (auto simp: attemptPlace_def)
    next
      case False
      with Some bt assms
      have "attemptPlace pf cell s = updateHoverFromPointer pf (placed c (bt_id bt) s)"
        by (simp add: attemptPlace_def Let_def scheduleSave_def pushAction_def placed_def)
      with Some bt False show ?thesis by simp
    qed
  qed
qed

lemma attemptRemove_cases:
  assumes "\<not> isRestoring s"
  shows "attemptRemove pf cell s = s
       \<or> (\<exists>c. cell = Some c \<and> getBlock (chunk s) (cx c) (cy c) (cz c) \<noteq> Some AIR
            \<and> attemptRemove pf cell s = updateHoverFromPointer pf (removed c s))"
proof (cases cell)
  case None
  then show ?thesis by (simp add: attemptRemove_def)
next
  case (Some c)
  show ?thesis
  proof (cases "getBlock (chunk s) (cx c) (cy c) (cz c) = Some AIR")
    case True
    with Some show ?thesis by (simp add: attemptRemove_def)
  next
    case False
    with Some assms
    have "attemptRemove pf cell s = updateHoverFromPointer pf (removed c s)"
      by (simp add: attemptRemove_def Let_def scheduleSave_def pushAction_def removed_def)
    with Some False show ?thesis by simp
  qed
qed

lemma getBlock_nonair_inBounds: "getBlock ch x y z \<noteq> Some AIR \<Longrightarrow> inBounds ch x y z"
  by (auto simp: getBlock_def split: if_splits)

lemma placed_inv:
  "state_inv s \<Longrightarrow> inBoundsCell (chunk s) c \<Longrightarrow> state_inv (placed c b s)"
  by (auto simp: state_inv_def history_inBounds_def candidates_inBounds_iff placed_def)

lemma removed_inv:
  "state_inv s \<Longrightarrow> inBoundsCell (chunk s) c \<Longrightarrow> state_inv (removed c s)"
  by (auto simp: state_inv_def history_inBounds_def candidates_inBounds_iff removed_def)

lemma attemptPlace_inv:
  assumes "state_inv s" and "\<forall>c. cell = Some c \<longrightarrow> inBoundsCell (chunk s) c"
  shows "state_inv (attemptPlace pf cell s)"
proof -
  from assms(1) have "\<not> isRestoring s" by (simp add: state_inv_def)
  from attemptPlace_cases [OF this, of pf cell] show ?thesis
  proof (elim disjE exE conjE)
    assume "attemptPlace pf cell s = s"
    with assms show ?thesis by simp
  next
    fix c bt
    assume c: "cell = Some c"
      and r: "attemptPlace pf cell s = updateHoverFromPointer pf (placed c (bt_id bt) s)"
    from assms c have "state_inv (placed c (bt_id bt) s)" by (intro placed_inv) simp_all
    then show ?thesis unfolding r by (rule updateHoverFromPointer_inv)
  qed
qed

lemma attemptRemove_inv:
  assumes "state_inv s"
  shows "state_inv (attemptRemove pf cell s)"
proof -
  from assms(1) have "\<not> isRestoring s" by (simp add: state_inv_def)
  from attemptRemove_cases [OF this, of pf cell] show ?thesis
  proof (elim disjE exE conjE)
    assume "attemptRemove pf cell s = s"
    with assms show ?thesis by simp
  next
    fix c
    assume g: "getBlock (chunk s) (cx c) (cy c) (cz c) \<noteq> Some AIR"
      and r: "attemptRemove pf cell s = updateHoverFromPointer pf (removed c s)"
    from assms getBlock_nonair_inBounds [OF g] have "state_inv (removed c s)"
      by (intro removed_inv)
    then show ?thesis unfolding r by (rule updateHoverFromPointer_inv)
  qed
qed

lemma clearPointerState_inv: "state_inv s \<Longrightarrow> state_inv (clearPointerState s)"
  by (auto simp: state_inv_def history_inBounds_def candidates_inBounds_iff
      clearPointerState_def clearPointerTimer_def Let_def)

lemma updateHover_inv: "state_inv s \<Longrightarrow> state_inv (updateHover pf coords s)"
proof -
  assume "state_inv s"
  then have "state_inv (setPointerFromEvent coords s)"
    by (auto simp: state_inv_def history_inBounds_def candidates_inBounds_iff
        setPointerFromEvent_def)
  then show ?thesis unfolding updateHover_def by (rule updateHoverFromPointer_inv)
qed

lemma handlePointerMove_inv: "state_inv s \<Longrightarrow> state_inv (handlePointerMove pf pid coords s)"
  using updateHover_inv [of s pf coords]
  by (auto simp: handlePointerMove_def Let_def clearPointerTimer_def state_inv_def
      history_inBounds_def candidates_inBounds_iff)

lemma handlePointerDown_inv:
  "state_inv s \<Longrightarrow> state_inv (handlePointerDown pf pid button coords s)"
  using updateHover_inv [of s pf coords]
  by (auto simp: handlePointerDown_def Let_def state_inv_def
      history_inBounds_def candidates_inBounds_iff)

lemma longPressTimeout_inv: "state_inv s \<Longrightarrow> state_inv (longPressTimeout pf s)"
proof -
  assume i: "state_inv s"
  then have "state_inv (s\<lparr>pointerState := (pointerState s)\<lparr>timer := False\<rparr>\<rparr>)"
    by (auto simp: state_inv_def history_inBounds_def candidates_inBounds_iff)
  then have "state_inv (attemptRemove pf (removeCell (pointerState s))
      (s\<lparr>pointerState := (pointerState s)\<lparr>timer := False\<rparr>\<rparr>))"
    by (rule attemptRemove_inv)
  then show ?thesis using i
    by (auto simp: longPressTimeout_def Let_def state_inv_def history_inBounds_def
        candidates_inBounds_iff)
qed

lemma handlePointerUp_inv: "state_inv s \<Longrightarrow> state_inv (handlePointerUp pf pid s)"
proof -
  assume i: "state_inv s"
  then have c: "state_inv (clearPointerState s)" by (rule clearPointerState_inv)
  have "\<forall>c. placeCell (pointerState s) = Some c \<longrightarrow> inBoundsCell (chunk (clearPointerState s)) c"
    using i by (auto simp: state_inv_def candidates_inBounds_iff clearPointerState_def
        clearPointerTimer_def Let_def)
  with c have "state_inv (attemptPlace pf (placeCell (pointerState s)) (clearPointerState s))"
    by (rule attemptPlace_inv)
  with i c show ?thesis by (simp add: handlePointerUp_def Let_def)
qed

lemma handlePointerCancel_inv: "state_inv s \<Longrightarrow> state_inv (handlePointerCancel pid s)"
  by (simp add: handlePointerCancel_def clearPointerState_inv)

lemma handlePointerLeave_inv: "state_inv s \<Longrightarrow> state_inv (handlePointerLeave s)"
proof -
  assume "state_inv s"
  then have "state_inv (clearPointerState (s\<lparr>hoverPlaceCell := None, hoverRemoveCell := None\<rparr>))"
    by (intro clearPointerState_inv hover_reset_inv)
  then show ?thesis
    by (auto simp: handlePointerLeave_def Let_def state_inv_def history_inBounds_def
        candidates_inBounds_iff)
qed

lemma applyAction_cases:
  "applyAction a s =
     (if inBoundsCell (chunk s) (act_cell a)
      then (True, s\<lparr>chunk := setBlock (chunk s) (cx (act_cell a)) (cy (act_cell a))
                (cz (act_cell a))
                (if act_type a = Place then (case act_blockId a of None \<Rightarrow> AIR | Some b \<Rightarrow> b)
                 else AIR),
              saveTimer := True, isRestoring := False\<rparr>)
      else (False, s))"
  by (simp add: applyAction_def Let_def scheduleSave_def)

lemma act_cell_invertAction [simp]: "act_cell (invertAction a) = act_cell a"
  by (simp add: invertAction_def split: action_type.splits)

lemma undo_inv: "state_inv s \<Longrightarrow> state_inv (undo s)"
  by (auto simp: undo_def Let_def applyAction_cases state_inv_def history_inBounds_def
      candidates_inBounds_iff split: list.splits)

lemma redo_inv: "state_inv s \<Longrightarrow> state_inv (redo s)"
  by (auto simp: redo_def Let_def applyAction_cases state_inv_def history_inBounds_def
      candidates_inBounds_iff split: list.splits)

lemma inBounds_data_update [simp]: "inBounds (ch\<lparr>data := d\<rparr>) x y z = inBounds ch x y z"
  by (simp add: inBounds_def)

lemma resetChunkState_inv: "state_inv s \<Longrightarrow> state_inv (resetChunkState tr s)"
  by (auto simp: resetChunkState_def Let_def flushSave_def clearHistory_def state_inv_def
      history_inBounds_def candidates_inBounds_iff)

lemma setSelectedBlock_inv: "state_inv s \<Longrightarrow> state_inv (setSelectedBlock b s)"
  by (auto simp: setSelectedBlock_def state_inv_def history_inBounds_def
      candidates_inBounds_iff split: option.splits)

lemma flushSave_inv: "state_inv s \<Longrightarrow> state_inv (flushSave s)"
  by (auto simp: flushSave_def state_inv_def history_inBounds_def candidates_inBounds_iff)

lemma step_inv: "state_inv s \<Longrightarrow> state_inv (step pf tr s ev)"
  by (cases ev)
    (simp_all add: handlePointerMove_inv handlePointerDown_inv handlePointerUp_inv
      handlePointerCancel_inv handlePointerLeave_inv longPressTimeout_inv undo_inv redo_inv
      resetChunkState_inv setSelectedBlock_inv flushSave_inv)

lemma initial_state_inv: "state_inv (initial_state ch)"
  by (simp add: state_inv_def history_inBounds_def candidates_inBounds_iff initial_state_def)

lemma reachable_inv: "reachable s \<Longrightarrow> state_inv s"
  by (induction rule: reachable.induct) (simp_all add: initial_state_inv step_inv)

text \<open>
  Claim C9. In every state the program can reach, every action on the undo or the redo
  stack has an in-bounds cell, so the inverse \<open>undo\<close> applies and the action \<open>redo\<close>
  applies never target an out-of-bounds cell: \<open>applyAction\<close> returns true. (\<open>attemptPlace\<close>
  itself has no bounds check; the cells it is called with are placement candidates, which
  the picker offers only when in bounds.)
\<close>

theorem recorded_actions_inBounds:
  assumes "reachable s"
  shows "(\<forall>a \<in> set (undoStack s) \<union> set (redoStack s). inBoundsCell (chunk s) (act_cell a))
       \<and> (\<forall>a rest. undoStack s = a # rest \<longrightarrow>
             inBoundsCell (chunk s) (act_cell (invertAction a))
             \<and> fst (applyAction (invertAction a) (s\<lparr>undoStack := rest\<rparr>)))
       \<and> (\<forall>a rest. redoStack s = a # rest \<longrightarrow>
             inBoundsCell (chunk s) (act_cell a)
             \<and> fst (applyAction a (s\<lparr>redoStack := rest\<rparr>)))"
  using reachable_inv [OF assms]
  by (auto simp: state_inv_def history_inBounds_def applyAction_cases)

section \<open>Properties of the gesture controller\<close>

lemma commits_iff:
  "commits s0 s n =
     (if n = 0 then undoStack s = undoStack s0 \<and> chunk s = chunk s0
      else if n = 1
      then (\<exists>a. undoStack s = a # undoStack s0 \<and> chunk s = apply_chunk a (chunk s0))
      else False)"
  by (auto simp: commits_def split: list.splits)

lemma attemptPlace_commit:
  assumes "\<not> isRestoring s" "blockTypeById (selectedBlockId s) = Some bt" "bt_id bt \<noteq> AIR"
    and "getBlock (chunk s) (cx c) (cy c) (cz c) = Some AIR"
  shows "attemptPlace pf (Some c) s = updateHoverFromPointer pf (placed c (bt_id bt) s)"
  using assms
  by (simp add: attemptPlace_def Let_def scheduleSave_def pushAction_def placed_def)

lemma attemptRemove_commit:
  assumes "\<not> isRestoring s" "getBlock (chunk s) (cx c) (cy c) (cz c) \<noteq> Some AIR"
  shows "attemptRemove pf (Some c) s = updateHoverFromPointer pf (removed c s)"
  using assms
  by (simp add: attemptRemove_def Let_def scheduleSave_def pushAction_def removed_def)

lemma placed_fields [simp]:
  "undoStack (placed c b s) = \<lparr>act_type = Place, act_blockId = Some b, act_cell = c\<rparr> # undoStack s"
  "chunk (placed c b s) = apply_chunk \<lparr>act_type = Place, act_blockId = Some b, act_cell = c\<rparr> (chunk s)"
  "redoStack (placed c b s) = []"
  "pointerState (placed c b s) = pointerState s"
  "isRestoring (placed c b s) = isRestoring s"
  by (simp_all add: placed_def apply_chunk_def action_value_def)

lemma removed_fields [simp]:
  "undoStack (removed c s) =
     \<lparr>act_type = Remove, act_blockId = getBlock (chunk s) (cx c) (cy c) (cz c), act_cell = c\<rparr>
       # undoStack s"
  "chunk (removed c s) =
     apply_chunk \<lparr>act_type = Remove, act_blockId = getBlock (chunk s) (cx c) (cy c) (cz c),
        act_cell = c\<rparr> (chunk s)"
  "redoStack (removed c s) = []"
  "pointerState (removed c s) = pointerState s"
  "isRestoring (removed c s) = isRestoring s"
  by (simp_all add: removed_def apply_chunk_def action_value_def)

lemma attemptPlace_commits:
  assumes "\<not> isRestoring s"
  shows "(undoStack (attemptPlace pf cell s) = undoStack s
          \<and> chunk (attemptPlace pf cell s) = chunk s)
       \<or> (\<exists>a. undoStack (attemptPlace pf cell s) = a # undoStack s
             \<and> chunk (attemptPlace pf cell s) = apply_chunk a (chunk s))"
  using attemptPlace_cases [OF assms, of pf cell] by auto

lemma attemptRemove_commits:
  assumes "\<not> isRestoring s"
  shows "(undoStack (attemptRemove pf cell s) = undoStack s
          \<and> chunk (attemptRemove pf cell s) = chunk s)
       \<or> (\<exists>a. undoStack (attemptRemove pf cell s) = a # undoStack s
             \<and> chunk (attemptRemove pf cell s) = apply_chunk a (chunk s))"
  using attemptRemove_cases [OF assms, of pf cell] by auto

lemma updateHover_frame [simp]:
  "chunk (updateHover pf coords s) = chunk s"
  "undoStack (updateHover pf coords s) = undoStack s"
  "redoStack (updateHover pf coords s) = redoStack s"
  "isRestoring (updateHover pf coords s) = isRestoring s"
  "pointerState (updateHover pf coords s) = pointerState s"
  "selectedBlockId (updateHover pf coords s) = selectedBlockId s"
  by (simp_all add: updateHover_def setPointerFromEvent_def)

lemma handlePointerMove_frame:
  "chunk (handlePointerMove pf pid coords s) = chunk s"
  "undoStack (handlePointerMove pf pid coords s) = undoStack s"
  "redoStack (handlePointerMove pf pid coords s) = redoStack s"
  "isRestoring (handlePointerMove pf pid coords s) = isRestoring s"
  "pointerId (pointerState (handlePointerMove pf pid coords s)) = pointerId (pointerState s)"
  "longPressFired (pointerState (handlePointerMove pf pid coords s))
     = longPressFired (pointerState s)"
  "timer (pointerState (handlePointerMove pf pid coords s)) \<Longrightarrow> timer (pointerState s)"
  by (auto simp: handlePointerMove_def Let_def clearPointerTimer_def split: if_splits)

lemma clearPointerState_fields [simp]:
  "chunk (clearPointerState s) = chunk s"
  "undoStack (clearPointerState s) = undoStack s"
  "redoStack (clearPointerState s) = redoStack s"
  "isRestoring (clearPointerState s) = isRestoring s"
  "selectedBlockId (clearPointerState s) = selectedBlockId s"
  "pointerState (clearPointerState s) =
     \<lparr>pointerId = None, timer = False, longPressFired = False, placeCell = None,
      removeCell = None\<rparr>"
  by (simp_all add: clearPointerState_def clearPointerTimer_def Let_def)

lemma idle_clearPointerState [simp]: "idle (clearPointerState s)"
  by (simp add: idle_def)

lemma commits_clearPointerState [simp]:
  "commits s0 (clearPointerState s) n = commits s0 s n"
  by (simp add: commits_iff)

lemma gesture_inv_move:
  "gesture_inv s0 s \<Longrightarrow> gesture_inv s0 (handlePointerMove pf pid coords s)"
  using handlePointerMove_frame(7) [of pf pid coords s]
  by (auto simp: gesture_inv_def commits_iff handlePointerMove_frame)

lemma gesture_inv_down:
  "gesture_inv s0 s \<Longrightarrow> pointerId (pointerState s) \<noteq> None \<Longrightarrow>
     gesture_inv s0 (handlePointerDown pf pid button coords s)"
  by (simp add: handlePointerDown_def)

lemma gesture_inv_timeout:
  assumes "gesture_inv s0 s" "pointerId (pointerState s) \<noteq> None"
  shows "gesture_inv s0 (longPressTimeout pf s)"
proof (cases "timer (pointerState s)")
  case False
  with assms show ?thesis by (simp add: longPressTimeout_def)
next
  case True
  let ?s1 = "s\<lparr>pointerState := (pointerState s)\<lparr>timer := False\<rparr>\<rparr>"
  from True assms have c0: "commits s0 s 0" and r: "\<not> isRestoring s"
    by (auto simp: gesture_inv_def split: if_splits)
  from r have "\<not> isRestoring ?s1" by simp
  from attemptRemove_commits [OF this, of pf "removeCell (pointerState ?s1)"] c0
  have "commits s0 (attemptRemove pf (removeCell (pointerState ?s1)) ?s1) 0
      \<or> commits s0 (attemptRemove pf (removeCell (pointerState ?s1)) ?s1) 1"
    by (auto simp: commits_iff)
  with True r show ?thesis
    by (auto simp: longPressTimeout_def Let_def gesture_inv_def commits_iff)
qed

lemma gesture_inv_up:
  assumes "gesture_inv s0 s" "pointerId (pointerState s) \<noteq> None"
  shows "gesture_inv s0 (handlePointerUp pf pid s)"
proof (cases "pointerId (pointerState s) = Some pid")
  case False
  with assms show ?thesis by (simp add: handlePointerUp_def)
next
  case True
  from assms have r: "\<not> isRestoring s" by (simp add: gesture_inv_def)
  show ?thesis
  proof (cases "longPressFired (pointerState s)")
    case lp: True
    with True assms show ?thesis
      by (auto simp: handlePointerUp_def Let_def gesture_inv_def commits_iff)
  next
    case lp: False
    with assms have c0: "commits s0 s 0" by (auto simp: gesture_inv_def)
    from r have "\<not> isRestoring (clearPointerState s)" by simp
    from attemptPlace_commits [OF this, of pf "placeCell (pointerState s)"] c0
    have "commits s0 (attemptPlace pf (placeCell (pointerState s)) (clearPointerState s)) 0
        \<or> commits s0 (attemptPlace pf (placeCell (pointerState s)) (clearPointerState s)) 1"
      by (auto simp: commits_iff)
    with True lp r c0 show ?thesis
      by (auto simp: handlePointerUp_def Let_def gesture_inv_def)
  qed
qed

lemma gesture_inv_cancel:
  "gesture_inv s0 s \<Longrightarrow> gesture_inv s0 (handlePointerCancel pid s)"
  by (auto simp: handlePointerCancel_def gesture_inv_def commits_iff split: if_splits)

lemma handlePointerLeave_fields [simp]:
  "chunk (handlePointerLeave s) = chunk s"
  "undoStack (handlePointerLeave s) = undoStack s"
  "redoStack (handlePointerLeave s) = redoStack s"
  "isRestoring (handlePointerLeave s) = isRestoring s"
  "pointerState (handlePointerLeave s) =
     \<lparr>pointerId = None, timer = False, longPressFired = False, placeCell = None,
      removeCell = None\<rparr>"
  by (simp_all add: handlePointerLeave_def Let_def)

lemma gesture_inv_leave: "gesture_inv s0 s \<Longrightarrow> gesture_inv s0 (handlePointerLeave s)"
  by (auto simp: gesture_inv_def commits_iff split: if_splits)

lemma gesture_inv_select: "gesture_inv s0 s \<Longrightarrow> gesture_inv s0 (setSelectedBlock b s)"
  by (auto simp: setSelectedBlock_def gesture_inv_def commits_iff split: option.splits)

lemma gesture_inv_flush: "gesture_inv s0 s \<Longrightarrow> gesture_inv s0 (flushSave s)"
  by (auto simp: flushSave_def gesture_inv_def commits_iff)

lemma gesture_inv_step:
  assumes "gesture_inv s0 s" "pointerId (pointerState s) \<noteq> None" "gesture_event ev"
  shows "gesture_inv s0 (step pf tr s ev)"
  using assms
  by (cases ev)
    (simp_all add: gesture_inv_move gesture_inv_down gesture_inv_timeout gesture_inv_up
      gesture_inv_cancel gesture_inv_leave gesture_inv_select gesture_inv_flush)

lemma gesture_inv_start:
  assumes "idle s0" "\<not> isRestoring s0"
  shows "gesture_inv s0 (handlePointerDown pf pid button coords s0)"
  using assms
  by (auto simp: handlePointerDown_def Let_def gesture_inv_def commits_iff idle_def)

lemma in_gesture_inv:
  assumes "idle s0" "\<not> isRestoring s0" "in_gesture s0 s"
  shows "gesture_inv s0 s"
  using assms(3)
  by (induction rule: in_gesture.induct)
    (simp_all add: gesture_inv_start assms gesture_inv_step)

text \<open>
  Claim C7. From an idle controller, throughout a gesture and at its end, at most one edit
  has been committed, whatever pointer events, timeouts, page-hide and block-type picks
  arrive while it lasts: either the undo stack and the grid are as before the gesture, or
  exactly one action was pushed and the grid differs by that action. Once the long press
  has fired, the pointer-up of the tracked pointer leaves grid and stacks alone; so do
  pointer-cancel of the tracked pointer and pointer-leave, in every state; all three leave
  the controller idle.
\<close>

theorem one_commit_per_gesture:
  assumes "idle s0" "\<not> isRestoring s0" "in_gesture s0 s"
  shows "((undoStack s = undoStack s0 \<and> chunk s = chunk s0)
          \<or> (\<exists>a. undoStack s = a # undoStack s0 \<and> chunk s = apply_chunk a (chunk s0)))
       \<and> (longPressFired (pointerState s) \<and> pointerId (pointerState s) = Some pid \<longrightarrow>
            chunk (handlePointerUp pf pid s) = chunk s
            \<and> undoStack (handlePointerUp pf pid s) = undoStack s
            \<and> redoStack (handlePointerUp pf pid s) = redoStack s
            \<and> idle (handlePointerUp pf pid s))
       \<and> (pointerId (pointerState s) = Some pid \<longrightarrow>
            chunk (handlePointerCancel pid s) = chunk s
            \<and> undoStack (handlePointerCancel pid s) = undoStack s
            \<and> redoStack (handlePointerCancel pid s) = redoStack s
            \<and> idle (handlePointerCancel pid s))
       \<and> chunk (handlePointerLeave s) = chunk s
       \<and> undoStack (handlePointerLeave s) = undoStack s
       \<and> redoStack (handlePointerLeave s) = redoStack s
       \<and> idle (handlePointerLeave s)"
proof -
  from in_gesture_inv [OF assms] have "commits s0 s 0 \<or> commits s0 s 1"
    by (auto simp: gesture_inv_def split: if_splits)
  then have "(undoStack s = undoStack s0 \<and> chunk s = chunk s0)
          \<or> (\<exists>a. undoStack s = a # undoStack s0 \<and> chunk s = apply_chunk a (chunk s0))"
    by (auto simp: commits_iff)
  then show ?thesis
    by (simp add: handlePointerUp_def handlePointerCancel_def Let_def idle_def)
qed

text \<open>
  The two gestures of the concrete scene: the tap records a Place of grass at \<open>(8, 1, 8)\<close>;
  the held press records a Remove of the stone block, after which the pointer-up places
  nothing although \<open>(8, 1, 8)\<close> was captured as the placement candidate.
\<close>

lemma chunk_ok_stone: "chunk_ok stone_chunk"
  by (simp add: stone_chunk_def chunk_ok_initial)

lemma top_face_hover:
  assumes "chunk s = stone_chunk" "lastPointerCoords s = Some p"
  shows "hoverPlaceCell (updateHoverFromPointer top_face_platform s)
           = Some \<lparr>cx = 8, cy = 1, cz = 8\<rparr>"
    and "hoverRemoveCell (updateHoverFromPointer top_face_platform s)
           = Some \<lparr>cx = 8, cy = 0, cz = 8\<rparr>"
  using assms
  by (simp_all add: updateHoverFromPointer_def top_face_platform_def exact_add_def worldPointToCell_def
      halfWidth_def halfDepth_def VOXEL_SIZE_def inBounds_def stone_chunk_cells)

lemma initial_state_fields [simp]:
  "chunk (initial_state ch) = ch"
  "undoStack (initial_state ch) = []"
  "redoStack (initial_state ch) = []"
  "isRestoring (initial_state ch) = False"
  "selectedBlockId (initial_state ch) = GRASS"
  "pointerId (pointerState (initial_state ch)) = None"
  "timer (pointerState (initial_state ch)) = False"
  by (simp_all add: initial_state_def defaultBlockId_def)

lemma pressed_state_fields:
  "chunk pressed_state = stone_chunk"
  "undoStack pressed_state = []"
  "isRestoring pressed_state = False"
  "selectedBlockId pressed_state = GRASS"
  "pointerState pressed_state =
     \<lparr>pointerId = Some 1, timer = True, longPressFired = False,
      placeCell = Some \<lparr>cx = 8, cy = 1, cz = 8\<rparr>, removeCell = Some \<lparr>cx = 8, cy = 0, cz = 8\<rparr>\<rparr>"
proof -
  let ?s1 = "updateHover top_face_platform (0, 0) (initial_state stone_chunk)"
  have h: "hoverPlaceCell ?s1 = Some \<lparr>cx = 8, cy = 1, cz = 8\<rparr>"
    "hoverRemoveCell ?s1 = Some \<lparr>cx = 8, cy = 0, cz = 8\<rparr>"
    unfolding updateHover_def
    by (rule top_face_hover; simp add: setPointerFromEvent_def)+
  have p: "pointerState ?s1 = pointerState (initial_state stone_chunk)" by simp
  show "chunk pressed_state = stone_chunk" "undoStack pressed_state = []"
    "isRestoring pressed_state = False" "selectedBlockId pressed_state = GRASS"
    by (simp_all add: pressed_state_def handlePointerDown_def Let_def)
  show "pointerState pressed_state =
     \<lparr>pointerId = Some 1, timer = True, longPressFired = False,
      placeCell = Some \<lparr>cx = 8, cy = 1, cz = 8\<rparr>, removeCell = Some \<lparr>cx = 8, cy = 0, cz = 8\<rparr>\<rparr>"
    using h by (simp add: pressed_state_def handlePointerDown_def Let_def initial_state_def)
qed

lemma block_ids_distinct: "GRASS \<noteq> AIR" "STONE \<noteq> AIR"
  by (simp_all add: GRASS_def STONE_def AIR_def)

lemma blockTypeById_GRASS: "blockTypeById GRASS = Some \<lparr>bt_id = GRASS, bt_placeable = True\<rparr>"
  by (simp add: blockTypeById_simps GRASS_def AIR_def)

lemma tapped_state_fields:
  "undoStack tapped_state
     = [\<lparr>act_type = Place, act_blockId = Some GRASS, act_cell = \<lparr>cx = 8, cy = 1, cz = 8\<rparr>\<rparr>]"
  "inBounds (chunk tapped_state) x y z = inBounds stone_chunk x y z"
proof -
  let ?c = "\<lparr>cx = 8, cy = 1, cz = 8\<rparr>"
  let ?s = "clearPointerState pressed_state"
  have t: "tapped_state = attemptPlace top_face_platform (Some ?c) ?s"
    by (simp add: tapped_state_def handlePointerUp_def Let_def pressed_state_fields)
  have "attemptPlace top_face_platform (Some ?c) ?s
      = updateHoverFromPointer top_face_platform
          (placed ?c (bt_id \<lparr>bt_id = GRASS, bt_placeable = True\<rparr>) ?s)"
    by (rule attemptPlace_commit)
      (simp_all add: pressed_state_fields blockTypeById_GRASS stone_chunk_cells block_ids_distinct)
  then show "undoStack tapped_state
     = [\<lparr>act_type = Place, act_blockId = Some GRASS, act_cell = \<lparr>cx = 8, cy = 1, cz = 8\<rparr>\<rparr>]"
    by (simp add: t pressed_state_fields)
  show "inBounds (chunk tapped_state) x y z = inBounds stone_chunk x y z"
    by (simp add: t pressed_state_fields)
qed

lemma held_state_fields:
  "undoStack held_state
     = [\<lparr>act_type = Remove, act_blockId = Some STONE, act_cell = \<lparr>cx = 8, cy = 0, cz = 8\<rparr>\<rparr>]"
  "pointerId (pointerState held_state) = Some 1"
  "longPressFired (pointerState held_state)"
  "placeCell (pointerState held_state) = Some \<lparr>cx = 8, cy = 1, cz = 8\<rparr>"
proof -
  let ?c = "\<lparr>cx = 8, cy = 0, cz = 8\<rparr>"
  let ?s1 = "pressed_state\<lparr>pointerState := (pointerState pressed_state)\<lparr>timer := False\<rparr>\<rparr>"
  have h: "held_state = (attemptRemove top_face_platform (Some ?c) ?s1)
      \<lparr>pointerState := (pointerState (attemptRemove top_face_platform (Some ?c) ?s1))
          \<lparr>longPressFired := True\<rparr>\<rparr>"
    by (simp add: held_state_def longPressTimeout_def Let_def pressed_state_fields)
  have r: "attemptRemove top_face_platform (Some ?c) ?s1
      = updateHoverFromPointer top_face_platform (removed ?c ?s1)"
    by (rule attemptRemove_commit)
      (simp_all add: pressed_state_fields stone_chunk_cells block_ids_distinct)
  show "undoStack held_state
     = [\<lparr>act_type = Remove, act_blockId = Some STONE, act_cell = \<lparr>cx = 8, cy = 0, cz = 8\<rparr>\<rparr>]"
    unfolding h r by (simp add: pressed_state_fields stone_chunk_cells)
  show "pointerId (pointerState held_state) = Some 1"
    "longPressFired (pointerState held_state)"
    "placeCell (pointerState held_state) = Some \<lparr>cx = 8, cy = 1, cz = 8\<rparr>"
    unfolding h r by (simp_all add: pressed_state_fields)
qed

theorem recorded_actions_inBounds_witness:
  "reachable tapped_state
   \<and> undoStack tapped_state
       = [\<lparr>act_type = Place, act_blockId = Some GRASS, act_cell = \<lparr>cx = 8, cy = 1, cz = 8\<rparr>\<rparr>]
   \<and> inBounds (chunk tapped_state) 8 1 8
   \<and> fst (applyAction (invertAction \<lparr>act_type = Place, act_blockId = Some GRASS,
        act_cell = \<lparr>cx = 8, cy = 1, cz = 8\<rparr>\<rparr>) (tapped_state\<lparr>undoStack := []\<rparr>))"
proof -
  have "reachable (initial_state stone_chunk)"
    by (rule reachable_init) (rule chunk_ok_stone)
  then have "reachable (step top_face_platform [] (initial_state stone_chunk)
      (PointerDown 1 0 (0, 0)))"
    by (rule reachable_step)
  then have "reachable (step top_face_platform []
      (step top_face_platform [] (initial_state stone_chunk) (PointerDown 1 0 (0, 0)))
      (PointerUp 1))"
    by (rule reachable_step)
  then have r: "reachable tapped_state"
    by (simp add: tapped_state_def pressed_state_def)
  from recorded_actions_inBounds [OF r] tapped_state_fields(1) r
  show ?thesis by simp
qed

lemma held_saved_state_fields:
  "undoStack held_saved_state = undoStack held_state"
  "chunk held_saved_state = chunk held_state"
  "pointerState held_saved_state = pointerState held_state"
  by (simp_all add: held_saved_state_def flushSave_def)

theorem one_commit_per_gesture_witness:
  "idle (initial_state stone_chunk) \<and> \<not> isRestoring (initial_state stone_chunk)
   \<and> in_gesture (initial_state stone_chunk) held_saved_state
   \<and> undoStack held_saved_state
       = [\<lparr>act_type = Remove, act_blockId = Some STONE, act_cell = \<lparr>cx = 8, cy = 0, cz = 8\<rparr>\<rparr>]
   \<and> longPressFired (pointerState held_saved_state)
   \<and> pointerId (pointerState held_saved_state) = Some 1
   \<and> placeCell (pointerState held_saved_state) = Some \<lparr>cx = 8, cy = 1, cz = 8\<rparr>
   \<and> undoStack (handlePointerUp top_face_platform 1 held_saved_state)
       = undoStack held_saved_state
   \<and> chunk (handlePointerUp top_face_platform 1 held_saved_state) = chunk held_saved_state
   \<and> idle (handlePointerUp top_face_platform 1 held_saved_state)"
proof -
  have i: "idle (initial_state stone_chunk)" "\<not> isRestoring (initial_state stone_chunk)"
    by (simp_all add: idle_def)
  have "in_gesture (initial_state stone_chunk)
      (handlePointerDown top_face_platform 1 0 (0, 0) (initial_state stone_chunk))"
    by (rule gesture_start) (simp add: pressed_state_fields [unfolded pressed_state_def])
  then have "in_gesture (initial_state stone_chunk) pressed_state"
    by (simp add: pressed_state_def)
  then have "in_gesture (initial_state stone_chunk)
      (step top_face_platform [] pressed_state LongPressTimeout)"
    by (rule gesture_step) (simp_all add: pressed_state_fields)
  then have "in_gesture (initial_state stone_chunk) held_state"
    by (simp add: held_state_def)
  then have "in_gesture (initial_state stone_chunk)
      (step top_face_platform [] held_state SaveTimeout)"
    by (rule gesture_step) (simp_all add: held_state_fields)
  then have g: "in_gesture (initial_state stone_chunk) held_saved_state"
    by (simp only: held_saved_state_def)
  from one_commit_per_gesture [OF i g, of 1 top_face_platform] i g held_state_fields
    held_saved_state_fields
  show ?thesis by simp
qed

section \<open>Properties of undo and redo\<close>

lemma inBounds_apply_chunk [simp]:
  "inBounds (apply_chunk a ch) x y z = inBounds ch x y z"
  by (simp add: apply_chunk_def)

lemma chunk_ok_apply_chunk [simp]: "chunk_ok (apply_chunk a ch) = chunk_ok ch"
  by (simp add: apply_chunk_def)

lemma setBlock_restore:
  assumes "chunk_ok ch" "getBlock ch x y z = Some v"
  shows "setBlock (setBlock ch x y z w) x y z v = ch"
proof (cases "inBounds ch x y z")
  case False
  then show ?thesis by (simp add: setBlock_out_of_bounds)
next
  case True
  with assms have r: "0 \<le> getIndex ch x y z" "getIndex ch x y z < int (length (data ch))"
    using getIndex_in_range by simp_all
  with assms True have "data ch ! nat (getIndex ch x y z) = v"
    by (simp add: getBlock_def ta_get_def)
  then have "(data ch)[nat (getIndex ch x y z) := v] = data ch"
    by (metis list_update_id)
  with True r show ?thesis
    by (simp add: setBlock_def ta_set_def inBounds_def getIndex_def)
qed

lemma undo_step:
  assumes "undoStack s = a # rest"
  shows "chunk (undo s) = apply_chunk (invertAction a) (chunk s)"
    and "undoStack (undo s) = rest"
    and "redoStack (undo s)
          = (if inBoundsCell (chunk s) (act_cell a) then a # redoStack s else redoStack s)"
  using assms
  by (simp_all add: undo_def Let_def applyAction_cases apply_chunk_def action_value_def
      setBlock_out_of_bounds)

lemma redo_step:
  assumes "redoStack s = a # rest"
  shows "chunk (redo s) = apply_chunk a (chunk s)"
    and "redoStack (redo s) = rest"
    and "undoStack (redo s)
          = (if inBoundsCell (chunk s) (act_cell a) then a # undoStack s else undoStack s)"
  using assms
  by (simp_all add: redo_def Let_def applyAction_cases apply_chunk_def action_value_def
      setBlock_out_of_bounds)

lemma undo_funpow:
  assumes "undoStack s = as @ rest"
  shows "chunk ((undo ^^ length as) s) = fold (\<lambda>a. apply_chunk (invertAction a)) as (chunk s)
       \<and> undoStack ((undo ^^ length as) s) = rest
       \<and> redoStack ((undo ^^ length as) s)
           = rev (filter (\<lambda>a. inBoundsCell (chunk s) (act_cell a)) as) @ redoStack s"
  using assms
proof (induction as arbitrary: s)
  case Nil
  then show ?case by simp
next
  case (Cons a as)
  then have u: "undoStack s = a # (as @ rest)" by simp
  note st = undo_step [OF u]
  from Cons.IH [of "undo s"] st show ?case
    by (simp add: funpow_swap1)
qed

lemma redo_funpow:
  assumes "redoStack s = bs @ rest"
  shows "chunk ((redo ^^ length bs) s) = fold apply_chunk bs (chunk s)
       \<and> redoStack ((redo ^^ length bs) s) = rest"
  using assms
proof (induction bs arbitrary: s)
  case Nil
  then show ?case by simp
next
  case (Cons b bs)
  then have u: "redoStack s = b # (bs @ rest)" by simp
  note st = redo_step [OF u]
  from Cons.IH [of "redo s"] st show ?case
    by (simp add: funpow_swap1)
qed

lemma redo_noop: "redoStack s = [] \<Longrightarrow> (redo ^^ k) s = s"
  by (induction k) (simp_all add: redo_def)

lemma fold_apply_filter:
  assumes "\<And>x y z. inBounds ch' x y z = inBounds ch x y z"
  shows "fold apply_chunk (filter (\<lambda>a. inBoundsCell ch (act_cell a)) bs) ch'
           = fold apply_chunk bs ch'"
  using assms
proof (induction bs arbitrary: ch')
  case Nil
  then show ?case by simp
next
  case (Cons b bs)
  show ?case
  proof (cases "inBoundsCell ch (act_cell b)")
    case True
    with Cons show ?thesis by simp
  next
    case False
    with Cons.prems have "apply_chunk b ch' = ch'"
      by (simp add: apply_chunk_def setBlock_out_of_bounds)
    with False Cons show ?thesis by simp
  qed
qed

lemma edit_trace_place:
  assumes "edit_trace s0 as s" "getBlock (chunk s) (cx c) (cy c) (cz c) = Some AIR"
  shows "edit_trace s0 (\<lparr>act_type = Place, act_blockId = Some b, act_cell = c\<rparr> # as)
           (updateHoverFromPointer pf (placed c b s))"
proof -
  let ?a = "\<lparr>act_type = Place, act_blockId = Some b, act_cell = c\<rparr>"
  from assms have ok: "chunk_ok (chunk s)" by (simp add: edit_trace_def)
  have "apply_chunk (invertAction ?a) (apply_chunk ?a (chunk s)) = chunk s"
    using setBlock_restore [OF ok assms(2)]
    by (simp add: apply_chunk_def action_value_def invertAction_def)
  with assms(1) show ?thesis by (simp add: edit_trace_def)
qed

lemma edit_trace_remove:
  assumes "edit_trace s0 as s" "getBlock (chunk s) (cx c) (cy c) (cz c) \<noteq> Some AIR"
  shows "edit_trace s0
           (\<lparr>act_type = Remove, act_blockId = getBlock (chunk s) (cx c) (cy c) (cz c),
              act_cell = c\<rparr> # as)
           (updateHoverFromPointer pf (removed c s))"
proof -
  let ?a = "\<lparr>act_type = Remove, act_blockId = getBlock (chunk s) (cx c) (cy c) (cz c),
              act_cell = c\<rparr>"
  from assms have ok: "chunk_ok (chunk s)" by (simp add: edit_trace_def)
  then obtain v where v: "getBlock (chunk s) (cx c) (cy c) (cz c) = Some v"
    using getBlock_defined by blast
  have "apply_chunk (invertAction ?a) (apply_chunk ?a (chunk s)) = chunk s"
    using setBlock_restore [OF ok v]
    by (simp add: apply_chunk_def action_value_def invertAction_def v)
  with assms(1) show ?thesis by (simp add: edit_trace_def)
qed

lemma edit_trace_select:
  "edit_trace s0 as s \<Longrightarrow> edit_trace s0 as (setSelectedBlock b s)"
  by (simp add: edit_trace_def setSelectedBlock_def split: option.splits)

lemma attemptPlace_changed:
  assumes "\<not> isRestoring s" "attemptPlace pf (Some c) s \<noteq> s"
  obtains bt :: block_type where "getBlock (chunk s) (cx c) (cy c) (cz c) = Some AIR"
    and "attemptPlace pf (Some c) s = updateHoverFromPointer pf (placed c (bt_id bt) s)"
proof (cases "blockTypeById (selectedBlockId s)")
  case None
  with assms(2) show ?thesis by (simp add: attemptPlace_def)
next
  case (Some bt)
  with assms(2) have g: "bt_id bt \<noteq> AIR" "getBlock (chunk s) (cx c) (cy c) (cz c) = Some AIR"
    by (auto simp: attemptPlace_def split: if_splits)
  show ?thesis
    by (rule that [OF g(2) attemptPlace_commit [OF assms(1) Some g]])
qed

lemma attemptRemove_changed:
  assumes "\<not> isRestoring s" "attemptRemove pf (Some c) s \<noteq> s"
  shows "getBlock (chunk s) (cx c) (cy c) (cz c) \<noteq> Some AIR"
    and "attemptRemove pf (Some c) s = updateHoverFromPointer pf (removed c s)"
proof -
  from assms(2) show g: "getBlock (chunk s) (cx c) (cy c) (cz c) \<noteq> Some AIR"
    by (auto simp: attemptRemove_def Let_def split: if_splits)
  from attemptRemove_commit [OF assms(1) g]
  show "attemptRemove pf (Some c) s = updateHoverFromPointer pf (removed c s)" .
qed

lemma committed_edits_trace:
  assumes "chunk_ok (chunk s0)" "\<not> isRestoring s0" "committed_edits s0 n s"
  shows "\<exists>as. length as = n \<and> edit_trace s0 as s"
  using assms(3)
proof (induction rule: committed_edits.induct)
  case edits_none
  from assms(1,2) have "edit_trace s0 [] s0" by (simp add: edit_trace_def)
  then show ?case by auto
next
  case (edits_place n s pf c)
  then obtain as where as: "length as = n" "edit_trace s0 as s" by blast
  then have "\<not> isRestoring s" by (simp add: edit_trace_def)
  from this edits_place.hyps(2)
  obtain bt :: block_type where g: "getBlock (chunk s) (cx c) (cy c) (cz c) = Some AIR"
    and r: "attemptPlace pf (Some c) s = updateHoverFromPointer pf (placed c (bt_id bt) s)"
    by (rule attemptPlace_changed)
  from edit_trace_place [OF as(2) g, of "bt_id bt" pf] as(1) show ?case
    unfolding r by (intro exI [of _ "_ # as"]) simp
next
  case (edits_remove n s pf c)
  then obtain as where as: "length as = n" "edit_trace s0 as s" by blast
  then have nr: "\<not> isRestoring s" by (simp add: edit_trace_def)
  note g = attemptRemove_changed(1) [OF nr edits_remove.hyps(2)]
  note r = attemptRemove_changed(2) [OF nr edits_remove.hyps(2)]
  from edit_trace_remove [OF as(2) g, of pf] as(1) show ?case
    unfolding r by (intro exI [of _ "_ # as"]) simp
next
  case (edits_select n s b)
  then show ?case using edit_trace_select by blast
qed

lemma funpow_split:
  assumes "k \<le> n"
  shows "(f ^^ n) x = (f ^^ (n - k)) ((f ^^ k) x)"
proof -
  from assms have "(f ^^ n) x = (f ^^ ((n - k) + k)) x" by simp
  then show ?thesis by (simp only: funpow_add o_apply)
qed

lemma edit_trace_undo_redo:
  assumes "edit_trace s0 as s"
  shows "chunk ((undo ^^ length as) s) = chunk s0
       \<and> chunk ((redo ^^ length as) ((undo ^^ length as) s)) = chunk s"
proof (cases "as = []")
  case True
  from assms have "fold (\<lambda>a. apply_chunk (invertAction a)) as (chunk s) = chunk s0"
    unfolding edit_trace_def by blast
  with True show ?thesis by simp
next
  case False
  let ?t = "(undo ^^ length as) s"
  let ?bs = "rev (filter (\<lambda>a. inBoundsCell (chunk s) (act_cell a)) as)"
  from assms False have u: "undoStack s = as @ undoStack s0" and re: "redoStack s = []"
    and U: "fold (\<lambda>a. apply_chunk (invertAction a)) as (chunk s) = chunk s0"
    and R: "fold apply_chunk (rev as) (chunk s0) = chunk s"
    unfolding edit_trace_def by blast+
  from undo_funpow [OF u] U re have t: "chunk ?t = chunk s0" "redoStack ?t = ?bs @ []"
    by simp_all
  from redo_funpow [OF t(2)]
  have k: "chunk ((redo ^^ length ?bs) ?t) = fold apply_chunk ?bs (chunk ?t)"
    "redoStack ((redo ^^ length ?bs) ?t) = []"
    by simp_all
  have le: "length ?bs \<le> length as" by simp
  then have "(redo ^^ length as) ?t = (redo ^^ (length as - length ?bs)) ((redo ^^ length ?bs) ?t)"
    by (rule funpow_split)
  also have "\<dots> = (redo ^^ length ?bs) ?t" using k(2) by (rule redo_noop)
  finally have "chunk ((redo ^^ length as) ?t) = fold apply_chunk ?bs (chunk s0)"
    using k(1) t(1) by simp
  also have "?bs = filter (\<lambda>a. inBoundsCell (chunk s) (act_cell a)) (rev as)"
    by (simp add: rev_filter)
  also have "fold apply_chunk (filter (\<lambda>a. inBoundsCell (chunk s) (act_cell a)) (rev as))
      (chunk s0) = fold apply_chunk (rev as) (chunk s0)"
  proof (rule fold_apply_filter)
    fix x y z
    have "inBounds (fold apply_chunk bs ch) x y z = inBounds ch x y z" for bs ch
      by (induction bs arbitrary: ch) simp_all
    from this [of "rev as" "chunk s0"] R show "inBounds (chunk s0) x y z = inBounds (chunk s) x y z"
      by simp
  qed
  finally show ?thesis using R t(1) by simp
qed

text \<open>
  Claim C4. After \<open>N\<close> committed Place/Remove edits from any state with a well-shaped
  grid, \<open>N\<close> calls of \<open>undo\<close> followed by \<open>N\<close> calls of \<open>redo\<close> give back the grid as it was
  after the edits; the \<open>N\<close> calls of \<open>undo\<close> alone give back the grid the edits started from.
\<close>

theorem undo_redo_roundtrip:
  assumes "chunk_ok (chunk s0)" "\<not> isRestoring s0" "committed_edits s0 N s"
  shows "chunk ((redo ^^ N) ((undo ^^ N) s)) = chunk s
       \<and> chunk ((undo ^^ N) s) = chunk s0"
  using committed_edits_trace [OF assms] edit_trace_undo_redo by blast

text \<open>
  Grass placed on the stone block and removed again: two undos give back the scene, two
  redos the grid after the edits.
\<close>

lemma pointing_state_fields [simp]:
  "undoStack pointing_state = []"
  "isRestoring pointing_state = False"
  "selectedBlockId pointing_state = GRASS"
  by (simp_all add: pointing_state_def)

lemma placed_state_eq:
  "placed_state = updateHoverFromPointer top_face_platform
     (placed \<lparr>cx = 8, cy = 1, cz = 8\<rparr> GRASS pointing_state)"
proof -
  have "attemptPlace top_face_platform (Some \<lparr>cx = 8, cy = 1, cz = 8\<rparr>) pointing_state
      = updateHoverFromPointer top_face_platform
          (placed \<lparr>cx = 8, cy = 1, cz = 8\<rparr> (bt_id \<lparr>bt_id = GRASS, bt_placeable = True\<rparr>)
             pointing_state)"
    by (rule attemptPlace_commit)
      (simp_all add: blockTypeById_GRASS stone_chunk_cells block_ids_distinct)
  then show ?thesis by (simp add: placed_state_def)
qed

lemma placed_state_cell: "getBlock (chunk placed_state) 8 1 8 = Some GRASS"
proof -
  have "inBounds stone_chunk 8 1 8" by (simp add: inBounds_def)
  with chunk_ok_stone show ?thesis
    by (simp add: placed_state_eq apply_chunk_def action_value_def getBlock_setBlock_same)
qed

lemma placed_removed_state_eq:
  "placed_removed_state = updateHoverFromPointer top_face_platform
     (removed \<lparr>cx = 8, cy = 1, cz = 8\<rparr> placed_state)"
  unfolding placed_removed_state_def
  by (rule attemptRemove_commit)
    (simp_all add: placed_state_cell block_ids_distinct, simp add: placed_state_eq)

theorem undo_redo_roundtrip_witness:
  "chunk_ok (chunk pointing_state) \<and> \<not> isRestoring pointing_state
   \<and> committed_edits pointing_state 2 placed_removed_state
   \<and> chunk ((redo ^^ 2) ((undo ^^ 2) placed_removed_state)) = chunk placed_removed_state
   \<and> chunk ((undo ^^ 2) placed_removed_state) = stone_chunk"
proof -
  have ok: "chunk_ok (chunk pointing_state)" "\<not> isRestoring pointing_state"
    by (simp_all add: chunk_ok_stone)
  have "undoStack placed_state \<noteq> undoStack pointing_state"
    by (simp add: placed_state_eq)
  then have n1: "attemptPlace top_face_platform (Some \<lparr>cx = 8, cy = 1, cz = 8\<rparr>) pointing_state
      \<noteq> pointing_state"
    unfolding placed_state_def by auto
  have "undoStack placed_removed_state \<noteq> undoStack placed_state"
    by (simp add: placed_removed_state_eq)
  then have n2: "attemptRemove top_face_platform (Some \<lparr>cx = 8, cy = 1, cz = 8\<rparr>) placed_state
      \<noteq> placed_state"
    unfolding placed_removed_state_def by auto
  have "committed_edits pointing_state 0 pointing_state" by (rule edits_none)
  from edits_place [OF this n1] have "committed_edits pointing_state (Suc 0) placed_state"
    by (simp add: placed_state_def)
  from edits_remove [OF this n2]
  have e: "committed_edits pointing_state 2 placed_removed_state"
    by (simp add: placed_removed_state_def numeral_2_eq_2)
  from undo_redo_roundtrip [OF ok e] ok e show ?thesis by simp
qed

end
